theory Spec2Isabelle
  imports Complex_Main "HOL-Library.Multiset"
begin

section \<open>Python exceptions and loops\<close>

text \<open>
  The notebooks are straight-line cells with \<open>for\<close> loops and one bare
  \<open>try: ... except: pass\<close>. A statement is a function from the state before it to the
  state after it together with the exception it raised, if any; a raised exception
  ends the enclosing loop and travels outwards with the state reached so far.
\<close>

datatype exn = AttributeError | IndexError | KeyError | ValueError | NameError | RuntimeError

type_synonym 's outcome = "'s \<times> exn option"

text \<open>\<^verbatim>\<open>for i in range(n): body\<close>, entered at index \<open>i\<close>.\<close>

function for_range_from :: "nat \<Rightarrow> nat \<Rightarrow> (nat \<Rightarrow> 's \<Rightarrow> 's outcome) \<Rightarrow> 's \<Rightarrow> 's outcome" where
  "for_range_from i n body s =
     (if i < n then
        (case body i s of
           (s', None) \<Rightarrow> for_range_from (Suc i) n body s'
         | (s', Some e) \<Rightarrow> (s', Some e))
      else (s, None))"
  by pat_completeness auto
termination
  by (relation "measure (\<lambda>(i, n, body, s). n - i)") auto

declare for_range_from.simps [simp del]

definition for_range :: "nat \<Rightarrow> (nat \<Rightarrow> 's \<Rightarrow> 's outcome) \<Rightarrow> 's \<Rightarrow> 's outcome" where
  "for_range n body s = for_range_from 0 n body s"

text \<open>\<^verbatim>\<open>for x in xs: body\<close> over a list.\<close>

fun for_in :: "'a list \<Rightarrow> ('a \<Rightarrow> 's \<Rightarrow> 's outcome) \<Rightarrow> 's \<Rightarrow> 's outcome" where
  "for_in [] body s = (s, None)"
| "for_in (x # xs) body s =
     (case body x s of
        (s', None) \<Rightarrow> for_in xs body s'
      | (s', Some e) \<Rightarrow> (s', Some e))"

text \<open>\<^verbatim>\<open>try: block  except: pass\<close>: whatever the block raised is dropped; the state it
  reached is kept.\<close>

definition try_except_pass :: "('s \<Rightarrow> 's outcome) \<Rightarrow> 's \<Rightarrow> 's outcome" where
  "try_except_pass block s = (fst (block s), None)"

section \<open>Arrays\<close>

text \<open>
  A float64 value is either NaN or a number. The claims about the gridding cell concern
  which entries are NaN and which points are selected, so the numbers are the reals.
\<close>

datatype float = NaN | Num real

definition isnan :: "float \<Rightarrow> bool" where
  "isnan v = (v = NaN)"

text \<open>A two-dimensional C-contiguous array: its shape and its flat buffer in row-major
  order (what \<^verbatim>\<open>a.flat\<close> iterates over).\<close>

record 'a ndarray2 =
  shape0 :: nat
  shape1 :: nat
  flat :: "'a list"

definition size_of :: "'a ndarray2 \<Rightarrow> nat" where
  "size_of a = shape0 a * shape1 a"

text \<open>\<^verbatim>\<open>a[n]\<close>: row \<open>n\<close> of the array.\<close>

definition getrow :: "'a ndarray2 \<Rightarrow> nat \<Rightarrow> exn + 'a list" where
  "getrow a n =
     (if n < shape0 a then Inr (take (shape1 a) (drop (n * shape1 a) (flat a)))
      else Inl IndexError)"

text \<open>\<^verbatim>\<open>a[:, j]\<close>: column \<open>j\<close> of the array.\<close>

definition getcolumn :: "'a ndarray2 \<Rightarrow> nat \<Rightarrow> exn + 'a list" where
  "getcolumn a j =
     (if j < shape1 a then Inr (map (\<lambda>r. flat a ! (r * shape1 a + j)) [0..<shape0 a])
      else Inl IndexError)"

text \<open>\<^verbatim>\<open>a.flat[ks] = v\<close> with an index array \<open>ks\<close>: an index outside the buffer raises.\<close>

definition flat_assign :: "'a ndarray2 \<Rightarrow> nat list \<Rightarrow> 'a \<Rightarrow> exn + 'a ndarray2" where
  "flat_assign a ks v =
     (if list_all (\<lambda>k. k < length (flat a)) ks
      then Inr (a\<lparr>flat := fold (\<lambda>k d. d[k := v]) ks (flat a)\<rparr>)
      else Inl IndexError)"

text \<open>\<^verbatim>\<open>xs[mask]\<close> with a boolean mask: the entries where the mask is true; a mask of
  another length raises.\<close>

definition bool_index :: "'a list \<Rightarrow> bool list \<Rightarrow> exn + 'a list" where
  "bool_index xs sel =
     (if length sel = length xs then Inr (map fst (filter snd (zip xs sel)))
      else Inl IndexError)"

definition arange :: "nat \<Rightarrow> nat list" where
  "arange n = [0..<n]"

text \<open>\<^verbatim>\<open>np.mgrid[0:1:60j, 0:1:50j]\<close>: \<open>m\<close> by \<open>n\<close> grids of the row coordinate and of the
  column coordinate, each running over \<open>0, 1/(k-1), ..., 1\<close>.\<close>

definition linspace01 :: "nat \<Rightarrow> real list" where
  "linspace01 k = map (\<lambda>i. real i / real (k - 1)) [0..<k]"

definition mgrid :: "nat \<Rightarrow> nat \<Rightarrow> real list list \<times> real list list" where
  "mgrid m n = (map (\<lambda>y. replicate n y) (linspace01 m), replicate m (linspace01 n))"

section \<open>The gridding cell (Creating NetCDF files)\<close>

definition Ndatapoints :: nat where
  "Ndatapoints = 1000"

definition Ntimes :: nat where
  "Ntimes = 20"

definition Nbad :: nat where
  "Nbad = 200"

text \<open>
  What the cell gets from the random generator: the draws of the two
  \<^verbatim>\<open>np.random.rand\<close> calls and the rearrangement \<^verbatim>\<open>np.random.shuffle\<close> makes. That the
  shuffle permutes its argument is the library's contract and a hypothesis where it is
  needed.
\<close>

record randomness =
  draw_x :: "nat \<Rightarrow> real"
  draw_y :: "nat \<Rightarrow> real"
  shuffle :: "nat list \<Rightarrow> nat list"

definition rand :: "(nat \<Rightarrow> real) \<Rightarrow> nat \<Rightarrow> real list" where
  "rand draw n = map draw [0..<n]"

text \<open>
  numpy's global generator is an input as well; \<open>'r\<close> is its state, which the notebook
  carries from cell to cell. From a state, \<^verbatim>\<open>np.random.rand(n)\<close> gives its values by
  position and leaves the generator in a new state, and so does
  \<^verbatim>\<open>np.random.shuffle\<close> on an array of \<open>n\<close> items with the rearrangement it makes.
\<close>

record 'r np_random =
  rand_value :: "'r \<Rightarrow> nat \<Rightarrow> real"
  rand_after :: "nat \<Rightarrow> 'r \<Rightarrow> 'r"
  shuffle_of :: "'r \<Rightarrow> nat list \<Rightarrow> nat list"
  shuffle_after :: "nat \<Rightarrow> 'r \<Rightarrow> 'r"

text \<open>The draws of the cell's three calls, in the order of the source, when the
  generator is in state \<open>g0\<close> before the first.\<close>

definition cell_draws :: "'r np_random \<Rightarrow> 'r \<Rightarrow> randomness" where
  "cell_draws G g0 =
     (let g1 = rand_after G Ndatapoints g0;
          g2 = rand_after G Ndatapoints g1 in
      \<lparr>draw_x = rand_value G g0, draw_y = rand_value G g1, shuffle = shuffle_of G g2\<rparr>)"

text \<open>
  \<^verbatim>\<open>np.sin((xdata+ydata)[np.newaxis, :]*5.0 + time[:, np.newaxis]/3.0)\<close>: one row per time,
  one column per data point. \<open>xdata\<close> and \<open>ydata\<close> have the same length in the cell.
\<close>

definition wave :: "real list \<Rightarrow> real list \<Rightarrow> nat list \<Rightarrow> float ndarray2" where
  "wave xdata ydata time =
     \<lparr>shape0 = length time, shape1 = length xdata,
      flat = concat (map (\<lambda>t. map (\<lambda>(x, y). Num (sin ((x + y) * 5.0 + real t / 3.0)))
                                   (zip xdata ydata)) time)\<rparr>"

text \<open>\<^verbatim>\<open>idx = np.arange(fdata.size); np.random.shuffle(idx)\<close>\<close>

definition shuffled_indices :: "randomness \<Rightarrow> 'a ndarray2 \<Rightarrow> nat list" where
  "shuffled_indices R fdata = shuffle R (arange (size_of fdata))"

text \<open>\<^verbatim>\<open>fdata.flat[idx[:Nbad]] = np.nan\<close>\<close>

definition remove_bad :: "float ndarray2 \<Rightarrow> nat list \<Rightarrow> exn + float ndarray2" where
  "remove_bad fdata idx = flat_assign fdata (take Nbad idx) NaN"

text \<open>The values the cell computes before the interpolation loop, by the names the
  cell gives them.\<close>

definition cell_xdata :: "randomness \<Rightarrow> real list" where
  "cell_xdata R = rand (draw_x R) Ndatapoints"

definition cell_ydata :: "randomness \<Rightarrow> real list" where
  "cell_ydata R = rand (draw_y R) Ndatapoints"

definition cell_time :: "nat list" where
  "cell_time = arange Ntimes"

definition cell_wave :: "randomness \<Rightarrow> float ndarray2" where
  "cell_wave R = wave (cell_xdata R) (cell_ydata R) cell_time"

definition cell_idx :: "randomness \<Rightarrow> nat list" where
  "cell_idx R = shuffled_indices R (cell_wave R)"

definition cell_fdata :: "randomness \<Rightarrow> exn + float ndarray2" where
  "cell_fdata R = remove_bad (cell_wave R) (cell_idx R)"

definition cell_ygrid :: "real list list" where
  "cell_ygrid = fst (mgrid 60 50)"

definition cell_xgrid :: "real list list" where
  "cell_xgrid = snd (mgrid 60 50)"

text \<open>
  The triangulation library (\<^verbatim>\<open>matplotlib.tri\<close>) is an input: the three calls the loop
  makes, each of which may raise, and the unspecified 60-by-50 slice that
  \<^verbatim>\<open>np.ma.empty\<close> leaves in every row of \<open>fgrid\<close>. \<open>'t\<close> is a triangulation, \<open>'i\<close> an
  interpolant, \<open>'g\<close> a 60-by-50 masked array.
\<close>

record ('t, 'i, 'g) trilib =
  Triangulation :: "real list \<Rightarrow> real list \<Rightarrow> exn + 't"
  LinearTriInterpolator :: "'t \<Rightarrow> float list \<Rightarrow> exn + 'i"
  interp_call :: "'i \<Rightarrow> real list list \<Rightarrow> real list list \<Rightarrow> exn + 'g"
  ma_empty :: "'g"

text \<open>What a name of the notebook can be bound to.\<close>

datatype ('t, 'i, 'g) pyval =
    Module
  | IntV nat
  | IntArr "nat list"
  | BoolArr "bool list"
  | Arr1 "real list"
  | Arr2 "float ndarray2"
  | Grid "real list list"
  | MArr3 "'g list"
  | TriV 't
  | InterpV 'i
  | DatasetV string

text \<open>A NetCDF dataset on disk: its dimensions (\<open>None\<close> for an unlimited one), its
  variables (dimension names, data once written, units once set) and its global
  attributes.\<close>

record ('t, 'i, 'g) variable =
  var_dimensions :: "string list"
  var_data :: "('t, 'i, 'g) pyval option"
  var_units :: "string option"

record ('t, 'i, 'g) dataset =
  dimensions :: "string \<rightharpoonup> nat option"
  variables :: "string \<rightharpoonup> ('t, 'i, 'g) variable"
  attributes :: "string \<rightharpoonup> string"

text \<open>The state a cell runs in: the notebook's global names, the files on disk and the
  state of numpy's global random generator.\<close>

record ('t, 'i, 'g, 'r) notebook =
  globals :: "string \<rightharpoonup> ('t, 'i, 'g) pyval"
  files :: "string \<rightharpoonup> ('t, 'i, 'g) dataset"
  generator :: "'r"

definition assign ::
  "string \<Rightarrow> ('t, 'i, 'g) pyval \<Rightarrow> ('t, 'i, 'g, 'r) notebook \<Rightarrow> ('t, 'i, 'g, 'r) notebook" where
  "assign name v s = s\<lparr>globals := (globals s)(name \<mapsto> v)\<rparr>"

text \<open>A call that draws from the generator leaves it in its next state.\<close>

definition advance :: "('r \<Rightarrow> 'r) \<Rightarrow> ('t, 'i, 'g, 'r) notebook \<Rightarrow> ('t, 'i, 'g, 'r) notebook" where
  "advance next_state s = s\<lparr>generator := next_state (generator s)\<rparr>"

text \<open>\<^verbatim>\<open>fgrid[n] = g\<close>\<close>

definition setitem_fgrid :: "nat \<Rightarrow> 'g \<Rightarrow> ('t, 'i, 'g, 'r) notebook \<Rightarrow> ('t, 'i, 'g, 'r) notebook outcome" where
  "setitem_fgrid n g s =
     (case globals s ''fgrid'' of
        Some (MArr3 fgrid) \<Rightarrow>
          (if n < length fgrid then (assign ''fgrid'' (MArr3 (fgrid[n := g])) s, None)
           else (s, Some IndexError))
      | _ \<Rightarrow> (s, Some NameError))"

text \<open>
  The body of the interpolation loop:
  \<^verbatim>\<open>
    igood = ~np.isnan(fdata[n])
    t = tri.Triangulation(xdata[igood], ydata[igood])
    interp = tri.LinearTriInterpolator(t, fdata[n][igood])
    fgrid[n] = interp(xgrid, ygrid)
  \<close>
  The row \<open>fdata[n]\<close> is read twice in the source and once here: nothing changes
  \<open>fdata\<close> in between.
\<close>

definition interp_body ::
  "('t, 'i, 'g) trilib \<Rightarrow> real list \<Rightarrow> real list \<Rightarrow> float ndarray2 \<Rightarrow> real list list \<Rightarrow> real list list
    \<Rightarrow> nat \<Rightarrow> ('t, 'i, 'g, 'r) notebook \<Rightarrow> ('t, 'i, 'g, 'r) notebook outcome" where
  "interp_body L xdata ydata fdata xgrid ygrid n s0 =
     (let s1 = assign ''n'' (IntV n) s0 in
      case getrow fdata n of Inl e \<Rightarrow> (s1, Some e) | Inr fn \<Rightarrow>
     (let igood = map (\<lambda>v. \<not> isnan v) fn;
          s2 = assign ''igood'' (BoolArr igood) s1 in
      case bool_index xdata igood of Inl e \<Rightarrow> (s2, Some e) | Inr xgood \<Rightarrow>
     (case bool_index ydata igood of Inl e \<Rightarrow> (s2, Some e) | Inr ygood \<Rightarrow>
     (case Triangulation L xgood ygood of Inl e \<Rightarrow> (s2, Some e) | Inr t \<Rightarrow>
     (let s3 = assign ''t'' (TriV t) s2 in
      case bool_index fn igood of Inl e \<Rightarrow> (s3, Some e) | Inr fgood \<Rightarrow>
     (case LinearTriInterpolator L t fgood of Inl e \<Rightarrow> (s3, Some e) | Inr interp \<Rightarrow>
     (let s4 = assign ''interp'' (InterpV interp) s3 in
      case interp_call L interp xgrid ygrid of Inl e \<Rightarrow> (s4, Some e) | Inr g \<Rightarrow>
      setitem_fgrid n g s4)))))))"

text \<open>
  The whole cell. Its random draws are those of \<open>cell_draws\<close> from the generator state
  the notebook is in; each drawing call leaves the generator in its next state. The
  lines after the loop, which would create \<^verbatim>\<open>output/foo.nc\<close>, are comments in the source
  and so are no part of it.
\<close>

definition gridding_cell ::
  "('t, 'i, 'g) trilib \<Rightarrow> 'r np_random \<Rightarrow> ('t, 'i, 'g, 'r) notebook \<Rightarrow> ('t, 'i, 'g, 'r) notebook outcome" where
  "gridding_cell L G s0 =
     (let R = cell_draws G (generator s0);
          s1 = assign ''tri'' Module s0;
          s2 = assign ''Ndatapoints'' (IntV Ndatapoints) s1;
          s3 = assign ''Ntimes'' (IntV Ntimes) s2;
          s4 = assign ''Nbad'' (IntV Nbad) s3;
          s5 = advance (rand_after G Ndatapoints) (assign ''xdata'' (Arr1 (cell_xdata R)) s4);
          s6 = advance (rand_after G Ndatapoints) (assign ''ydata'' (Arr1 (cell_ydata R)) s5);
          s7 = assign ''time'' (IntArr cell_time) s6;
          s8 = assign ''fdata'' (Arr2 (cell_wave R)) s7;
          s9 = advance (shuffle_after G (size_of (cell_wave R)))
                 (assign ''idx'' (IntArr (cell_idx R)) s8) in
      case cell_fdata R of Inl e \<Rightarrow> (s9, Some e) | Inr fdata \<Rightarrow>
     (let s10 = assign ''fdata'' (Arr2 fdata) s9;
          s11 = assign ''ygrid'' (Grid cell_ygrid) s10;
          s12 = assign ''xgrid'' (Grid cell_xgrid) s11;
          s13 = assign ''fgrid'' (MArr3 (replicate Ntimes (ma_empty L))) s12 in
      for_range Ntimes (interp_body L (cell_xdata R) (cell_ydata R) fdata cell_xgrid cell_ygrid) s13))"

text \<open>
  The interpolation of one time step in the words of the specification: select the
  scattered points whose value is not NaN, triangulate them, build the linear
  interpolant from the triangulation and the selected values, evaluate it on the grid.
\<close>

definition good_points :: "real list \<Rightarrow> real list \<Rightarrow> float list \<Rightarrow> (real \<times> real \<times> float) list" where
  "good_points xdata ydata fn = filter (\<lambda>(x, y, f). \<not> isnan f) (zip xdata (zip ydata fn))"

definition grid_from_points ::
  "('t, 'i, 'g) trilib \<Rightarrow> (real \<times> real \<times> float) list \<Rightarrow> real list list \<Rightarrow> real list list \<Rightarrow> exn + 'g" where
  "grid_from_points L pts xgrid ygrid =
     (case Triangulation L (map fst pts) (map (fst \<circ> snd) pts) of Inl e \<Rightarrow> Inl e | Inr t \<Rightarrow>
     (case LinearTriInterpolator L t (map (snd \<circ> snd) pts) of Inl e \<Rightarrow> Inl e | Inr interp \<Rightarrow>
      interp_call L interp xgrid ygrid))"


text \<open>
  A library that refuses to triangulate fewer than \<open>k\<close> points, or x and y arrays of
  different lengths, and to interpolate fewer than \<open>k\<close> values; otherwise it is \<open>L\<close>.
\<close>

definition needs_points :: "nat \<Rightarrow> ('t, 'i, 'g) trilib \<Rightarrow> ('t, 'i, 'g) trilib" where
  "needs_points k L =
     L\<lparr>Triangulation :=
         (\<lambda>xs ys. if k \<le> length xs \<and> length ys = length xs then Triangulation L xs ys
                  else Inl ValueError),
       LinearTriInterpolator :=
         (\<lambda>t fs. if k \<le> length fs then LinearTriInterpolator L t fs else Inl ValueError)\<rparr>"

subsection \<open>The lines of the cell that are comments\<close>

text \<open>
  Lines 436 to 461 of the cell are comments. Were they code, they would write the
  gridded field to \<^verbatim>\<open>output/foo.nc\<close>:
  \<^verbatim>\<open>
    nc = netCDF4.Dataset('output/foo.nc', 'w')
    nc.author = 'Me'
    nc.createDimension('x', 50)
    nc.createDimension('y', 60)
    nc.createDimension('time', None)
    nc.createVariable('f', 'd', ('time', 'y', 'x'))
    nc.variables['f'][:] = fgrid
    nc.variables['f'].units = 'meters sec-1'
    (the same three lines for x from xgrid[0, :], y from ygrid[:, 0], time from time)
    nc.close()
  \<close>
  They are modelled here, apart from the cell, to have the file operations the cell
  does not perform. Every variable is of type \<^verbatim>\<open>'d'\<close>; closing changes nothing on disk
  that the model records.
\<close>

definition open_for_writing ::
  "string \<Rightarrow> ('t, 'i, 'g, 'r) notebook \<Rightarrow> ('t, 'i, 'g, 'r) notebook outcome" where
  "open_for_writing path s =
     (assign ''nc'' (DatasetV path)
        (s\<lparr>files := (files s)(path \<mapsto>
              \<lparr>dimensions = Map.empty, variables = Map.empty, attributes = Map.empty\<rparr>)\<rparr>),
      None)"

definition on_file ::
  "string \<Rightarrow> (('t, 'i, 'g) dataset \<Rightarrow> ('t, 'i, 'g) dataset)
    \<Rightarrow> ('t, 'i, 'g, 'r) notebook \<Rightarrow> ('t, 'i, 'g, 'r) notebook outcome" where
  "on_file path change s =
     (case files s path of
        None \<Rightarrow> (s, Some RuntimeError)
      | Some d \<Rightarrow> (s\<lparr>files := (files s)(path \<mapsto> change d)\<rparr>, None))"

definition on_variable ::
  "string \<Rightarrow> string \<Rightarrow> (('t, 'i, 'g) variable \<Rightarrow> ('t, 'i, 'g) variable)
    \<Rightarrow> ('t, 'i, 'g, 'r) notebook \<Rightarrow> ('t, 'i, 'g, 'r) notebook outcome" where
  "on_variable path name change s =
     (case files s path of
        None \<Rightarrow> (s, Some RuntimeError)
      | Some d \<Rightarrow>
         (case variables d name of
            None \<Rightarrow> (s, Some KeyError)
          | Some v \<Rightarrow>
              (s\<lparr>files := (files s)(path \<mapsto> d\<lparr>variables := (variables d)(name \<mapsto> change v)\<rparr>)\<rparr>,
               None)))"

definition set_attribute :: "string \<Rightarrow> string \<Rightarrow> ('t, 'i, 'g) dataset \<Rightarrow> ('t, 'i, 'g) dataset" where
  "set_attribute name v d = d\<lparr>attributes := (attributes d)(name \<mapsto> v)\<rparr>"

definition createDimension :: "string \<Rightarrow> nat option \<Rightarrow> ('t, 'i, 'g) dataset \<Rightarrow> ('t, 'i, 'g) dataset" where
  "createDimension name len d = d\<lparr>dimensions := (dimensions d)(name \<mapsto> len)\<rparr>"

definition createVariable :: "string \<Rightarrow> string list \<Rightarrow> ('t, 'i, 'g) dataset \<Rightarrow> ('t, 'i, 'g) dataset" where
  "createVariable name dims d =
     d\<lparr>variables := (variables d)(name \<mapsto>
          \<lparr>var_dimensions = dims, var_data = None, var_units = None\<rparr>)\<rparr>"

text \<open>The values the writer stores: a global name, \<^verbatim>\<open>xgrid[0, :]\<close>, \<^verbatim>\<open>ygrid[:, 0]\<close>.\<close>

definition global_value :: "string \<Rightarrow> ('t, 'i, 'g, 'r) notebook \<Rightarrow> exn + ('t, 'i, 'g) pyval" where
  "global_value name s = (case globals s name of None \<Rightarrow> Inl NameError | Some v \<Rightarrow> Inr v)"

definition first_row :: "string \<Rightarrow> ('t, 'i, 'g, 'r) notebook \<Rightarrow> exn + ('t, 'i, 'g) pyval" where
  "first_row name s =
     (case globals s name of
        None \<Rightarrow> Inl NameError
      | Some (Grid (r # rs)) \<Rightarrow> Inr (Arr1 r)
      | Some v \<Rightarrow> Inl IndexError)"

definition first_column :: "string \<Rightarrow> ('t, 'i, 'g, 'r) notebook \<Rightarrow> exn + ('t, 'i, 'g) pyval" where
  "first_column name s =
     (case globals s name of
        None \<Rightarrow> Inl NameError
      | Some (Grid rows) \<Rightarrow>
          (if list_all (\<lambda>r. r \<noteq> []) rows then Inr (Arr1 (map hd rows)) else Inl IndexError)
      | Some v \<Rightarrow> Inl IndexError)"

definition write_variable ::
  "string \<Rightarrow> string \<Rightarrow> (('t, 'i, 'g, 'r) notebook \<Rightarrow> exn + ('t, 'i, 'g) pyval)
    \<Rightarrow> ('t, 'i, 'g, 'r) notebook \<Rightarrow> ('t, 'i, 'g, 'r) notebook outcome" where
  "write_variable path name val s =
     (case val s of
        Inl e \<Rightarrow> (s, Some e)
      | Inr v \<Rightarrow> on_variable path name (\<lambda>var. var\<lparr>var_data := Some v\<rparr>) s)"

definition set_units ::
  "string \<Rightarrow> string \<Rightarrow> string \<Rightarrow> ('t, 'i, 'g, 'r) notebook \<Rightarrow> ('t, 'i, 'g, 'r) notebook outcome" where
  "set_units path name units s = on_variable path name (\<lambda>var. var\<lparr>var_units := Some units\<rparr>) s"

definition writer_statements ::
  "(('t, 'i, 'g, 'r) notebook \<Rightarrow> ('t, 'i, 'g, 'r) notebook outcome) list" where
  "writer_statements =
     [on_file ''output/foo.nc'' (set_attribute ''author'' ''Me''),
      on_file ''output/foo.nc'' (createDimension ''x'' (Some 50)),
      on_file ''output/foo.nc'' (createDimension ''y'' (Some 60)),
      on_file ''output/foo.nc'' (createDimension ''time'' None),
      on_file ''output/foo.nc'' (createVariable ''f'' [''time'', ''y'', ''x'']),
      write_variable ''output/foo.nc'' ''f'' (global_value ''fgrid''),
      set_units ''output/foo.nc'' ''f'' ''meters sec-1'',
      on_file ''output/foo.nc'' (createVariable ''x'' [''x'']),
      write_variable ''output/foo.nc'' ''x'' (first_row ''xgrid''),
      set_units ''output/foo.nc'' ''x'' ''meters'',
      on_file ''output/foo.nc'' (createVariable ''y'' [''y'']),
      write_variable ''output/foo.nc'' ''y'' (first_column ''ygrid''),
      set_units ''output/foo.nc'' ''y'' ''meters'',
      on_file ''output/foo.nc'' (createVariable ''time'' [''time'']),
      write_variable ''output/foo.nc'' ''time'' (global_value ''time''),
      set_units ''output/foo.nc'' ''time'' ''seconds'']"

definition netcdf_writer :: "('t, 'i, 'g, 'r) notebook \<Rightarrow> ('t, 'i, 'g, 'r) notebook outcome" where
  "netcdf_writer s =
     for_in (open_for_writing ''output/foo.nc'' # writer_statements) (\<lambda>statement. statement) s"

subsection \<open>Inputs for examples\<close>

text \<open>
  Inputs on which the theorems about the cell are instantiated. The draws
  \<open>example_draws\<close> are spread over the unit square, with a shuffle that reverses its
  argument; \<open>example_generator\<close> gives them from state 0 (its state is the number of
  values drawn so far). \<open>coincident_generator\<close> draws the same value every time, so
  that all scattered points fall on one point. \<open>example_tri\<close> is a library whose calls
  always succeed (its triangulation is the number of points it was given);
  \<open>strict_tri\<close> refuses, as \<^verbatim>\<open>matplotlib.tri\<close> does, fewer than three points with
  \<open>ValueError\<close> and a point set without three distinct points with \<open>RuntimeError\<close>.
\<close>

definition example_draws :: randomness where
  "example_draws =
     \<lparr>draw_x = (\<lambda>i. real i / 1000), draw_y = (\<lambda>i. real (i mod 10) / 10), shuffle = rev\<rparr>"

definition example_generator :: "nat np_random" where
  "example_generator =
     \<lparr>rand_value = (\<lambda>r i. if r = 0 then real i / 1000 else real (i mod 10) / 10),
      rand_after = (\<lambda>n r. r + n),
      shuffle_of = (\<lambda>r. rev),
      shuffle_after = (\<lambda>n r. r + n)\<rparr>"

definition coincident_generator :: "nat np_random" where
  "coincident_generator =
     \<lparr>rand_value = (\<lambda>r i. 1 / 2),
      rand_after = (\<lambda>n r. r + n),
      shuffle_of = (\<lambda>r. rev),
      shuffle_after = (\<lambda>n r. r + n)\<rparr>"

definition example_tri :: "(nat, nat, nat) trilib" where
  "example_tri =
     \<lparr>Triangulation = (\<lambda>xs ys. Inr (length xs)),
      LinearTriInterpolator = (\<lambda>t fs. Inr (t + length fs)),
      interp_call = (\<lambda>i xg yg. Inr (i + length xg)), ma_empty = 0\<rparr>"

definition strict_tri :: "(nat, nat, nat) trilib" where
  "strict_tri =
     \<lparr>Triangulation =
        (\<lambda>xs ys. if length xs < 3 then Inl ValueError
                 else if length (remdups (zip xs ys)) < 3 then Inl RuntimeError
                 else Inr (length xs)),
      LinearTriInterpolator = (\<lambda>t fs. Inr (t + length fs)),
      interp_call = (\<lambda>i xg yg. Inr (i + length xg)), ma_empty = 0\<rparr>"

section \<open>The hurricane tracks cell (maps notebook)\<close>

text \<open>
  The parsed KML document, as far as the cell walks it. An attribute of an element is
  its first child of that name and raises \<open>AttributeError\<close> when there is none; its
  length and its items are the children of that name. The text of an element is
  \<open>None\<close> when the element is empty. Strings are ASCII text.
\<close>

datatype coordinates = CoordinatesElem (elem_text: "string option")

datatype linestring = LineStringElem (coordinates: "coordinates option")

datatype placemark = PlacemarkElem (LineString: "linestring option")

datatype document = DocumentElem (Placemark: "placemark list")

datatype folder = FolderElem (Document: "document option")

definition getitem :: "'a list \<Rightarrow> nat \<Rightarrow> exn + 'a" where
  "getitem xs i = (if i < length xs then Inr (xs ! i) else Inl IndexError)"

text \<open>\<^verbatim>\<open>doc.Document.Placemark\<close>: the Placemark children of the decade's document.\<close>

definition placemarks_of :: "folder \<Rightarrow> exn + placemark list" where
  "placemarks_of doc =
     (case Document doc of None \<Rightarrow> Inl AttributeError
      | Some d \<Rightarrow> if Placemark d = [] then Inl AttributeError else Inr (Placemark d))"

text \<open>\<^verbatim>\<open>placemark.LineString.coordinates.text\<close>\<close>

definition track_text_of :: "placemark \<Rightarrow> exn + string option" where
  "track_text_of pm =
     (case LineString pm of None \<Rightarrow> Inl AttributeError
      | Some ls \<Rightarrow>
         (case coordinates ls of None \<Rightarrow> Inl AttributeError
          | Some c \<Rightarrow> Inr (elem_text c)))"

text \<open>\<^verbatim>\<open>str.isspace\<close> on an ASCII character: tab, line feed, vertical tab, form feed,
  carriage return, the four separators 28 to 31, and the space.\<close>

definition isspace :: "char \<Rightarrow> bool" where
  "isspace c = ((of_char c :: nat) \<in> {9, 10, 11, 12, 13, 28, 29, 30, 31, 32})"

text \<open>\<^verbatim>\<open>s.split()\<close>: the maximal runs of characters that are not whitespace. The first
  argument is the run read so far, in reverse.\<close>

fun split_from :: "string \<Rightarrow> string \<Rightarrow> string list" where
  "split_from w [] = (if w = [] then [] else [rev w])"
| "split_from w (c # cs) =
     (if isspace c then (if w = [] then split_from [] cs else rev w # split_from [] cs)
      else split_from (c # w) cs)"

definition py_split :: "string option \<Rightarrow> exn + string list" where
  "py_split s = (case s of None \<Rightarrow> Inl AttributeError | Some t \<Rightarrow> Inr (split_from [] t))"

text \<open>
  \<^verbatim>\<open>np.fromstring(location, sep=',')\<close> is an input of the cell's model: it gives the
  numbers of one location, or raises. \<^verbatim>\<open>track.append(...)\<close> adds them as one row.
\<close>

definition location_body :: "(string \<Rightarrow> exn + 'a list) \<Rightarrow> string \<Rightarrow> 'a list list \<Rightarrow> 'a list list outcome" where
  "location_body fromstring location track =
     (case fromstring location of Inl e \<Rightarrow> (track, Some e) | Inr row \<Rightarrow> (track @ [row], None))"

text \<open>
  \<^verbatim>\<open>np.array(track)\<close> of a list of one-dimensional arrays: the empty list gives an empty
  one-dimensional array, rows of one length give a two-dimensional array, and rows of
  different lengths raise (\<open>ValueError\<close> in current numpy; older versions build a
  one-dimensional array of objects, on which the slice below raises \<open>IndexError\<close>;
  the bare \<open>except\<close> of the cell treats both alike).
\<close>

datatype 'a nparray = Array1 "'a list" | Array2 "'a ndarray2"

definition np_array :: "'a list list \<Rightarrow> exn + 'a nparray" where
  "np_array track =
     (if track = [] then Inr (Array1 [])
      else if list_ex (\<lambda>row. length row \<noteq> length (hd track)) track then Inl ValueError
      else Inr (Array2 \<lparr>shape0 = length track, shape1 = length (hd track), flat = concat track\<rparr>))"

text \<open>\<^verbatim>\<open>a[:, :2]\<close>: every row, cut to its first two columns; a one-dimensional array has
  no second axis and raises.\<close>

definition first_two_columns :: "'a nparray \<Rightarrow> exn + 'a ndarray2" where
  "first_two_columns a =
     (case a of
        Array1 xs \<Rightarrow> Inl IndexError
      | Array2 m \<Rightarrow>
          Inr \<lparr>shape0 = shape0 m, shape1 = min (shape1 m) 2,
               flat = concat (map (\<lambda>r. map (\<lambda>j. flat m ! (r * shape1 m + j)) [0..<min (shape1 m) 2])
                                     [0..<shape0 m])\<rparr>)"

text \<open>
  What one storm adds to \<open>tracks\<close>:
  \<^verbatim>\<open>
    track_text = ....Placemark[storm].LineString.coordinates.text
    track = []
    for location in track_text.split():
        track.append(np.fromstring(location, sep=','))
    tracks.append(np.array(track)[:, :2])
  \<close>
\<close>

definition storm_track :: "(string \<Rightarrow> exn + 'a list) \<Rightarrow> placemark \<Rightarrow> exn + 'a ndarray2" where
  "storm_track fromstring pm =
     (case track_text_of pm of Inl e \<Rightarrow> Inl e | Inr track_text \<Rightarrow>
     (case py_split track_text of Inl e \<Rightarrow> Inl e | Inr locations \<Rightarrow>
     (case for_in locations (location_body fromstring) [] of
        (track, Some e) \<Rightarrow> Inl e
      | (track, None) \<Rightarrow>
         (case np_array track of Inl e \<Rightarrow> Inl e | Inr a \<Rightarrow> first_two_columns a))))"

text \<open>The body of the loop over the storms of one decade; the placemark is looked up
  from the root again, as in the source.\<close>

definition storm_body ::
  "(string \<Rightarrow> exn + 'a list) \<Rightarrow> folder list \<Rightarrow> nat \<Rightarrow> nat \<Rightarrow> 'a ndarray2 list \<Rightarrow> 'a ndarray2 list outcome" where
  "storm_body fromstring folders decade storm tracks =
     (case getitem folders decade of Inl e \<Rightarrow> (tracks, Some e) | Inr doc \<Rightarrow>
     (case placemarks_of doc of Inl e \<Rightarrow> (tracks, Some e) | Inr pms \<Rightarrow>
     (case getitem pms storm of Inl e \<Rightarrow> (tracks, Some e) | Inr pm \<Rightarrow>
     (case storm_track fromstring pm of Inl e \<Rightarrow> (tracks, Some e)
      | Inr track \<Rightarrow> (tracks @ [track], None)))))"

text \<open>
  The body of the loop over the decades:
  \<^verbatim>\<open>
    doc = hurricanes.Document.Folder.Folder[decade]
    try:
        for storm in range(len(doc.Document.Placemark)):
            ...
    except:
        pass
  \<close>
\<close>

definition storms_loop ::
  "(string \<Rightarrow> exn + 'a list) \<Rightarrow> folder list \<Rightarrow> nat \<Rightarrow> folder \<Rightarrow> 'a ndarray2 list \<Rightarrow> 'a ndarray2 list outcome" where
  "storms_loop fromstring folders decade doc tracks =
     (case placemarks_of doc of Inl e \<Rightarrow> (tracks, Some e)
      | Inr pms \<Rightarrow> for_range (length pms) (storm_body fromstring folders decade) tracks)"

definition decade_body ::
  "(string \<Rightarrow> exn + 'a list) \<Rightarrow> folder list \<Rightarrow> nat \<Rightarrow> 'a ndarray2 list \<Rightarrow> 'a ndarray2 list outcome" where
  "decade_body fromstring folders decade tracks =
     (case getitem folders decade of Inl e \<Rightarrow> (tracks, Some e)
      | Inr doc \<Rightarrow> try_except_pass (storms_loop fromstring folders decade doc) tracks)"

text \<open>
  The reading loop, from \<^verbatim>\<open>tracks = []\<close>; \<open>folders\<close> are the decade folders
  \<^verbatim>\<open>hurricanes.Document.Folder.Folder\<close>. When there is none, that attribute lookup in
  the loop header raises, outside the \<open>try\<close>.
\<close>

definition read_tracks :: "(string \<Rightarrow> exn + 'a list) \<Rightarrow> folder list \<Rightarrow> 'a ndarray2 list outcome" where
  "read_tracks fromstring folders =
     (if folders = [] then ([], Some AttributeError)
      else for_range (length folders) (decade_body fromstring folders) [])"

text \<open>
  The tracks of one decade in the words of the specification: the tracks of its storms,
  in order, up to the first storm whose processing raises; none when the decade has no
  placemarks to count.
\<close>

definition decade_tracks :: "(string \<Rightarrow> exn + 'a list) \<Rightarrow> folder \<Rightarrow> 'a ndarray2 list" where
  "decade_tracks fromstring doc =
     (case placemarks_of doc of Inl e \<Rightarrow> []
      | Inr pms \<Rightarrow> map projr (takeWhile (\<lambda>r. \<not> isl r) (map (storm_track fromstring) pms)))"

text \<open>
  A stand-in for \<^verbatim>\<open>np.fromstring(s, sep=',')\<close> on which examples are evaluated: it reads
  unsigned decimal integers separated by commas, as numpy does, and raises on any
  other text.
\<close>

fun fields_from :: "string \<Rightarrow> string \<Rightarrow> string list" where
  "fields_from w [] = [rev w]"
| "fields_from w (c # cs) =
     (if c = CHR '','' then rev w # fields_from [] cs else fields_from (c # w) cs)"

definition is_digit :: "char \<Rightarrow> bool" where
  "is_digit c = (48 \<le> (of_char c :: nat) \<and> (of_char c :: nat) \<le> 57)"

definition decimal :: "string \<Rightarrow> int" where
  "decimal ds = foldl (\<lambda>a c. 10 * a + (int (of_char c) - 48)) 0 ds"

definition fromstring_unsigned :: "string \<Rightarrow> exn + int list" where
  "fromstring_unsigned s =
     (let fields = fields_from [] s in
      if list_all (\<lambda>f. f \<noteq> [] \<and> list_all is_digit f) fields then Inr (map decimal fields)
      else Inl ValueError)"

text \<open>Elements for examples: a placemark whose LineString has the given coordinates
  text, and a decade folder with the given placemarks.\<close>

definition track_placemark :: "string \<Rightarrow> placemark" where
  "track_placemark coords =
     PlacemarkElem (Some (LineStringElem (Some (CoordinatesElem (Some coords)))))"

definition decade_folder :: "placemark list \<Rightarrow> folder" where
  "decade_folder pms = FolderElem (Some (DocumentElem pms))"

section \<open>Properties of the array operations\<close>

lemma length_fold_update: "length (fold (\<lambda>k d. d[k := v]) ks d) = length d"
  by (induction ks arbitrary: d) auto

lemma nth_fold_update:
  "p < length d \<Longrightarrow> fold (\<lambda>k d. d[k := v]) ks d ! p = (if p \<in> set ks then v else d ! p)"
proof (induction ks arbitrary: d)
  case Nil
  then show ?case by simp
next
  case (Cons k ks)
  then show ?case by (cases "p = k") (auto simp: length_fold_update)
qed

lemma shuffled_arange:
  assumes "mset idx = mset (arange N)"
  shows "distinct idx" "set idx = {..<N}" "length idx = N"
proof -
  have "distinct idx = distinct (arange N)"
    using assms by (rule mset_eq_imp_distinct_iff)
  then show "distinct idx" by (simp add: arange_def)
  have "set idx = set (arange N)" using assms by (rule mset_eq_setD)
  then show "set idx = {..<N}" by (simp add: arange_def lessThan_atLeast0)
  have "length idx = length (arange N)" using assms by (rule mset_eq_length)
  then show "length idx = N" by (simp add: arange_def)
qed

lemma length_concat_rows:
  "\<forall>r\<in>set rows. length r = k \<Longrightarrow> length (concat rows) = length rows * k"
  by (induction rows) auto

lemma nth_concat_rows:
  "\<forall>r\<in>set rows. length r = k \<Longrightarrow> n < length rows \<Longrightarrow> i < k \<Longrightarrow>
   concat rows ! (n * k + i) = rows ! n ! i"
proof (induction rows arbitrary: n)
  case Nil
  then show ?case by simp
next
  case (Cons r rows)
  show ?case
  proof (cases n)
    case 0
    with Cons.prems show ?thesis by (simp add: nth_append)
  next
    case (Suc m)
    with Cons.prems have "concat rows ! (m * k + i) = rows ! m ! i"
      by (intro Cons.IH) auto
    with Suc Cons.prems show ?thesis by (simp add: nth_append add.assoc)
  qed
qed

lemma count_slice_le: "length (filter P (take k (drop j xs))) \<le> length (filter P xs)"
proof -
  have "length (filter P xs) =
        length (filter P (take j xs @ (take k (drop j xs) @ drop k (drop j xs))))"
    by (simp only: append_take_drop_id)
  also have "\<dots> = length (filter P (take j xs)) + (length (filter P (take k (drop j xs)))
        + length (filter P (drop k (drop j xs))))"
    by (simp only: filter_append length_append)
  finally show ?thesis by linarith
qed

lemma wave_shape [simp]:
  "shape0 (wave xdata ydata time) = length time"
  "shape1 (wave xdata ydata time) = length xdata"
  by (simp_all add: wave_def)

lemma wave_rows_length:
  assumes "length ydata = length xdata"
  shows "\<forall>r\<in>set (map (\<lambda>t. map (\<lambda>(x, y). Num (sin ((x + y) * 5.0 + real t / 3.0))) (zip xdata ydata)) time).
           length r = length xdata"
  using assms by auto

lemma length_flat_wave:
  "length ydata = length xdata \<Longrightarrow> length (flat (wave xdata ydata time)) = length time * length xdata"
  using length_concat_rows [OF wave_rows_length, of ydata xdata time]
  by (simp add: wave_def)

lemma nth_flat_wave:
  assumes "length ydata = length xdata" "n < length time" "i < length xdata"
  shows "flat (wave xdata ydata time) ! (n * length xdata + i)
           = Num (sin ((xdata ! i + ydata ! i) * 5.0 + real (time ! n) / 3.0))"
  using nth_concat_rows [OF wave_rows_length, of ydata xdata n time i] assms
  by (simp add: wave_def)

lemma wave_no_nan: "v \<in> set (flat (wave xdata ydata time)) \<Longrightarrow> \<not> isnan v"
  by (auto simp: wave_def isnan_def)

lemma flat_assign_ok:
  assumes "set ks \<subseteq> {..<length (flat a)}"
  shows "flat_assign a ks v = Inr (a\<lparr>flat := fold (\<lambda>k d. d[k := v]) ks (flat a)\<rparr>)"
  using assms by (auto simp: flat_assign_def list_all_iff)

lemma count_nan_after_assign:
  assumes "distinct ks" "set ks \<subseteq> {..<length d}" "\<forall>v\<in>set d. \<not> isnan v"
  shows "length (filter isnan (fold (\<lambda>k d. d[k := NaN]) ks d)) = length ks"
proof -
  let ?d' = "fold (\<lambda>k d. d[k := NaN]) ks d"
  have "{p. p < length ?d' \<and> isnan (?d' ! p)} = set ks"
  proof (rule set_eqI)
    fix p
    show "p \<in> {p. p < length ?d' \<and> isnan (?d' ! p)} \<longleftrightarrow> p \<in> set ks"
    proof (cases "p < length d")
      case True
      with assms(3) have "\<not> isnan (d ! p)" by simp
      with True show ?thesis by (simp add: length_fold_update nth_fold_update isnan_def)
    next
      case False
      with assms(2) show ?thesis by (auto simp: length_fold_update)
    qed
  qed
  then have "length (filter isnan ?d') = card (set ks)"
    by (simp add: length_filter_conv_card)
  with assms(1) show ?thesis by (simp add: distinct_card)
qed

section \<open>Properties of the gridding cell\<close>

lemma cell_lengths [simp]:
  "length (cell_xdata R) = Ndatapoints"
  "length (cell_ydata R) = Ndatapoints"
  "length cell_time = Ntimes"
  by (simp_all add: cell_xdata_def cell_ydata_def cell_time_def rand_def arange_def)

lemma cell_time_nth: "n < Ntimes \<Longrightarrow> cell_time ! n = n"
  by (simp add: cell_time_def arange_def)

lemma cell_wave_shape [simp]:
  "shape0 (cell_wave R) = Ntimes"
  "shape1 (cell_wave R) = Ndatapoints"
  "length (flat (cell_wave R)) = Ntimes * Ndatapoints"
  "size_of (cell_wave R) = Ntimes * Ndatapoints"
  by (simp_all add: cell_wave_def size_of_def length_flat_wave)

lemma cell_wave_nth:
  "n < Ntimes \<Longrightarrow> i < Ndatapoints \<Longrightarrow>
   flat (cell_wave R) ! (n * Ndatapoints + i)
     = Num (sin ((cell_xdata R ! i + cell_ydata R ! i) * 5.0 + real n / 3.0))"
  using nth_flat_wave [of "cell_ydata R" "cell_xdata R" n cell_time i]
  by (simp add: cell_wave_def cell_time_nth)

lemma cell_wave_no_nan: "v \<in> set (flat (cell_wave R)) \<Longrightarrow> \<not> isnan v"
  unfolding cell_wave_def by (rule wave_no_nan)

text \<open>What the injection does once the shuffle has permuted the indices.\<close>

lemma cell_fdata_shuffled:
  assumes "mset (cell_idx R) = mset (arange (size_of (cell_wave R)))"
  defines "bad \<equiv> take Nbad (cell_idx R)"
  shows "cell_fdata R = Inr ((cell_wave R)\<lparr>flat := fold (\<lambda>k d. d[k := NaN]) bad (flat (cell_wave R))\<rparr>)"
    and "distinct (cell_idx R)" and "set (cell_idx R) = {..<Ntimes * Ndatapoints}"
    and "length (cell_idx R) = Ntimes * Ndatapoints"
    and "distinct bad" and "length bad = Nbad" and "set bad \<subseteq> {..<Ntimes * Ndatapoints}"
proof -
  from assms(1) have perm: "mset (cell_idx R) = mset (arange (Ntimes * Ndatapoints))" by simp
  show d: "distinct (cell_idx R)" and s: "set (cell_idx R) = {..<Ntimes * Ndatapoints}"
    and l: "length (cell_idx R) = Ntimes * Ndatapoints"
    using shuffled_arange [OF perm] by auto
  from d show "distinct bad" by (simp add: bad_def)
  from l show "length bad = Nbad" by (simp add: bad_def Nbad_def Ntimes_def Ndatapoints_def)
  from s show sub: "set bad \<subseteq> {..<Ntimes * Ndatapoints}"
    using set_take_subset [of Nbad "cell_idx R"] by (auto simp: bad_def)
  then show "cell_fdata R = Inr ((cell_wave R)\<lparr>flat := fold (\<lambda>k d. d[k := NaN]) bad (flat (cell_wave R))\<rparr>)"
    by (simp add: cell_fdata_def remove_bad_def bad_def flat_assign_ok)
qed

text \<open>
  Claim C3. Once the shuffle has permuted the flat indices, the injection succeeds and
  leaves a 20-by-1000 array: \<open>idx\<close> is a permutation of the 20000 flat indices, its
  first \<open>Nbad = 200\<close> entries are pairwise distinct, exactly 200 entries of \<open>fdata\<close>
  are NaN, and the entry at row \<open>n\<close>, column \<open>i\<close> is NaN when its flat position is
  among those 200 and keeps the wave value \<open>sin((xdata[i] + ydata[i]) * 5.0 + n / 3.0)\<close>
  otherwise.
\<close>

theorem missing_value_injection:
  assumes "mset (cell_idx R) = mset (arange (size_of (cell_wave R)))"
  shows "\<exists>fdata. cell_fdata R = Inr fdata
     \<and> shape0 fdata = 20 \<and> shape1 fdata = 1000 \<and> length (flat fdata) = 20000
     \<and> distinct (cell_idx R) \<and> set (cell_idx R) = {..<20000}
     \<and> distinct (take Nbad (cell_idx R)) \<and> length (take Nbad (cell_idx R)) = 200
     \<and> length (filter isnan (flat fdata)) = 200
     \<and> (\<forall>n<20. \<forall>i<1000. flat fdata ! (n * 1000 + i) =
          (if n * 1000 + i \<in> set (take Nbad (cell_idx R)) then NaN
           else Num (sin ((cell_xdata R ! i + cell_ydata R ! i) * 5.0 + real n / 3.0))))"
proof -
  let ?bad = "take Nbad (cell_idx R)"
  let ?fdata = "(cell_wave R)\<lparr>flat := fold (\<lambda>k d. d[k := NaN]) ?bad (flat (cell_wave R))\<rparr>"
  note facts = cell_fdata_shuffled [OF assms]
  have size: "Ntimes * Ndatapoints = 20000" by (simp add: Ntimes_def Ndatapoints_def)
  have 1: "cell_fdata R = Inr ?fdata" by (rule facts(1))
  have 2: "shape0 ?fdata = 20" "shape1 ?fdata = 1000" "length (flat ?fdata) = 20000"
    by (simp_all add: length_fold_update Ntimes_def Ndatapoints_def)
  have 3: "distinct (cell_idx R)" "set (cell_idx R) = {..<20000}"
    using facts(2,3) by (simp_all add: size)
  have 4: "distinct ?bad" "length ?bad = 200"
    using facts(5,6) by (simp_all add: Nbad_def)
  have "length (filter isnan (flat ?fdata)) = length ?bad"
    using count_nan_after_assign [of ?bad "flat (cell_wave R)"] facts(5,7) cell_wave_no_nan [of _ R]
    by auto
  with 4 have 5: "length (filter isnan (flat ?fdata)) = 200" by simp
  have 6: "flat ?fdata ! (n * 1000 + i) =
          (if n * 1000 + i \<in> set ?bad then NaN
           else Num (sin ((cell_xdata R ! i + cell_ydata R ! i) * 5.0 + real n / 3.0)))"
    if "n < 20" "i < 1000" for n i
  proof -
    from that have "n * 1000 + i < 20 * (1000::nat)"
      by arith
    then have "n * 1000 + i < length (flat (cell_wave R))"
      by (simp add: Ntimes_def Ndatapoints_def)
    then have "flat ?fdata ! (n * 1000 + i) =
       (if n * 1000 + i \<in> set ?bad then NaN else flat (cell_wave R) ! (n * 1000 + i))"
      by (simp add: nth_fold_update)
    moreover have "flat (cell_wave R) ! (n * 1000 + i)
       = Num (sin ((cell_xdata R ! i + cell_ydata R ! i) * 5.0 + real n / 3.0))"
      using cell_wave_nth [of n i R] that by (simp add: Ntimes_def Ndatapoints_def)
    ultimately show ?thesis by simp
  qed
  from 1 2 3 4 5 6 show ?thesis by blast
qed

theorem missing_value_injection_witness:
  "mset (cell_idx example_draws) = mset (arange (size_of (cell_wave example_draws)))
   \<and> (\<exists>fdata. cell_fdata example_draws = Inr fdata \<and> length (filter isnan (flat fdata)) = 200)"
proof -
  have h: "mset (cell_idx example_draws) = mset (arange (size_of (cell_wave example_draws)))"
    by (simp add: cell_idx_def shuffled_indices_def example_draws_def)
  from missing_value_injection [OF h] h show ?thesis by blast
qed

lemma length_bool_index:
  assumes "bool_index xs sel = Inr ys"
  shows "length ys = length (filter (\<lambda>b. b) sel)"
proof -
  from assms have len: "length sel = length xs" and ys: "ys = map fst (filter snd (zip xs sel))"
    by (auto simp: bool_index_def split: if_splits)
  from len have "length (filter snd (zip xs sel)) = length (filter (\<lambda>b. b) sel)"
    by (induction sel xs rule: list_induct2) auto
  with ys show ?thesis by simp
qed

lemma count_good:
  "length (filter (\<lambda>b. b) (map (\<lambda>v. \<not> isnan v) fn)) = length fn - length (filter isnan fn)"
  using sum_length_filter_compl [of isnan fn] by (simp add: filter_map comp_def)

section \<open>The interpolation loop\<close>

lemma for_range_from_for_in: "for_range_from i n body s = for_in [i..<n] body s"
proof (induction i n body s rule: for_range_from.induct)
  case (1 i n body s)
  show ?case
  proof (cases "i < n")
    case True
    then have "[i..<n] = i # [Suc i..<n]" by (simp add: upt_rec)
    with True 1 show ?thesis
      by (subst for_range_from.simps) (auto split: prod.splits option.splits)
  next
    case False
    then show ?thesis by (subst for_range_from.simps) simp
  qed
qed

lemma for_range_for_in: "for_range n body s = for_in [0..<n] body s"
  by (simp add: for_range_def for_range_from_for_in)

lemma bool_index_good_points:
  assumes "length ydata = length xdata" "length fn = length xdata"
  shows "bool_index xdata (map (\<lambda>v. \<not> isnan v) fn) = Inr (map fst (good_points xdata ydata fn))"
    and "bool_index ydata (map (\<lambda>v. \<not> isnan v) fn) = Inr (map (fst \<circ> snd) (good_points xdata ydata fn))"
    and "bool_index fn (map (\<lambda>v. \<not> isnan v) fn) = Inr (map (snd \<circ> snd) (good_points xdata ydata fn))"
proof -
  from assms have l: "length xdata = length ydata" "length ydata = length fn" by simp_all
  have "map fst (filter snd (zip xdata (map (\<lambda>v. \<not> isnan v) fn))) = map fst (good_points xdata ydata fn)
      \<and> map fst (filter snd (zip ydata (map (\<lambda>v. \<not> isnan v) fn))) = map (fst \<circ> snd) (good_points xdata ydata fn)
      \<and> map fst (filter snd (zip fn (map (\<lambda>v. \<not> isnan v) fn))) = map (snd \<circ> snd) (good_points xdata ydata fn)"
    using l by (induction xdata ydata fn rule: list_induct3) (auto simp: good_points_def)
  with assms show "bool_index xdata (map (\<lambda>v. \<not> isnan v) fn) = Inr (map fst (good_points xdata ydata fn))"
    and "bool_index ydata (map (\<lambda>v. \<not> isnan v) fn) = Inr (map (fst \<circ> snd) (good_points xdata ydata fn))"
    and "bool_index fn (map (\<lambda>v. \<not> isnan v) fn) = Inr (map (snd \<circ> snd) (good_points xdata ydata fn))"
    by (simp_all add: bool_index_def)
qed

lemma globals_assign [simp]:
  "globals (assign name v s) = (globals s)(name \<mapsto> v)"
  "files (assign name v s) = files s"
  "generator (assign name v s) = generator s"
  by (simp_all add: assign_def)

lemma generator_advance [simp]:
  "globals (advance next_state s) = globals s"
  "files (advance next_state s) = files s"
  "generator (advance next_state s) = next_state (generator s)"
  by (simp_all add: advance_def)

text \<open>One pass through the loop body, when row \<open>n\<close> exists and has one value per point.\<close>

lemma interp_body_step:
  assumes row: "getrow fdata n = Inr fn"
    and len: "length ydata = length xdata" "length fn = length xdata"
    and fg: "globals s ''fgrid'' = Some (MArr3 fgrid)" "n < length fgrid"
    and run: "interp_body L xdata ydata fdata xgrid ygrid n s = (s', None)"
  shows "\<exists>g. grid_from_points L (good_points xdata ydata fn) xgrid ygrid = Inr g
           \<and> globals s' ''fgrid'' = Some (MArr3 (fgrid[n := g]))"
  using run row fg
  unfolding interp_body_def grid_from_points_def setitem_fgrid_def
  by (auto simp: Let_def bool_index_good_points [OF len] split: sum.splits)

lemma interp_body_runs:
  assumes row: "getrow fdata n = Inr fn"
    and len: "length ydata = length xdata" "length fn = length xdata"
    and fg: "globals s ''fgrid'' = Some (MArr3 fgrid)" "n < length fgrid"
    and ok: "grid_from_points L (good_points xdata ydata fn) xgrid ygrid = Inr g"
  shows "\<exists>s'. interp_body L xdata ydata fdata xgrid ygrid n s = (s', None)"
  using ok row fg
  unfolding interp_body_def grid_from_points_def setitem_fgrid_def
  by (auto simp: Let_def bool_index_good_points [OF len] split: sum.splits)

lemma interp_loop_inv:
  assumes "for_in ns (interp_body L xdata ydata fdata xgrid ygrid) s = (s', None)"
    and "length ydata = length xdata"
    and "\<forall>n\<in>set ns. \<exists>fn. getrow fdata n = Inr fn \<and> length fn = length xdata"
    and "distinct ns" and "\<forall>n\<in>set ns. n < length fgrid"
    and "globals s ''fgrid'' = Some (MArr3 fgrid)"
  shows "\<exists>fgrid'. globals s' ''fgrid'' = Some (MArr3 fgrid') \<and> length fgrid' = length fgrid
           \<and> (\<forall>n\<in>set ns. \<exists>fn. getrow fdata n = Inr fn
                 \<and> grid_from_points L (good_points xdata ydata fn) xgrid ygrid = Inr (fgrid' ! n))
           \<and> (\<forall>n. n \<notin> set ns \<longrightarrow> fgrid' ! n = fgrid ! n)"
  using assms
proof (induction ns arbitrary: s fgrid)
  case Nil
  then show ?case by simp
next
  case (Cons n ns)
  let ?body = "interp_body L xdata ydata fdata xgrid ygrid"
  from Cons.prems(1) obtain s1 where s1: "?body n s = (s1, None)"
    and rest: "for_in ns ?body s1 = (s', None)"
    by (auto split: prod.splits option.splits)
  from Cons.prems(3) obtain fn where fn: "getrow fdata n = Inr fn" "length fn = length xdata"
    by auto
  from Cons.prems(5) have n: "n < length fgrid" by simp
  from interp_body_step [OF fn(1) Cons.prems(2) fn(2) Cons.prems(6) n s1]
  obtain g where g: "grid_from_points L (good_points xdata ydata fn) xgrid ygrid = Inr g"
    and fg1: "globals s1 ''fgrid'' = Some (MArr3 (fgrid[n := g]))" by blast
  have "\<exists>fgrid'. globals s' ''fgrid'' = Some (MArr3 fgrid') \<and> length fgrid' = length (fgrid[n := g])
           \<and> (\<forall>m\<in>set ns. \<exists>fn. getrow fdata m = Inr fn
                 \<and> grid_from_points L (good_points xdata ydata fn) xgrid ygrid = Inr (fgrid' ! m))
           \<and> (\<forall>m. m \<notin> set ns \<longrightarrow> fgrid' ! m = fgrid[n := g] ! m)"
    using Cons.prems(2,3,4,5) by (intro Cons.IH [OF rest _ _ _ _ fg1]) auto
  then obtain fgrid' where f': "globals s' ''fgrid'' = Some (MArr3 fgrid')"
      "length fgrid' = length fgrid"
      "\<forall>m\<in>set ns. \<exists>fn. getrow fdata m = Inr fn
           \<and> grid_from_points L (good_points xdata ydata fn) xgrid ygrid = Inr (fgrid' ! m)"
      "\<forall>m. m \<notin> set ns \<longrightarrow> fgrid' ! m = fgrid[n := g] ! m"
    by auto
  from Cons.prems(4) have "n \<notin> set ns" by simp
  with f'(4) n have at_n: "fgrid' ! n = g" by simp
  have "\<forall>m\<in>set (n # ns). \<exists>fn. getrow fdata m = Inr fn
           \<and> grid_from_points L (good_points xdata ydata fn) xgrid ygrid = Inr (fgrid' ! m)"
    using f'(3) fn(1) g at_n by auto
  moreover have "\<forall>m. m \<notin> set (n # ns) \<longrightarrow> fgrid' ! m = fgrid ! m"
    using f'(4) by auto
  ultimately show ?case using f'(1,2) by blast
qed

lemma interp_loop_runs:
  assumes "length ydata = length xdata"
    and "\<forall>n\<in>set ns. \<exists>fn g. getrow fdata n = Inr fn \<and> length fn = length xdata
            \<and> grid_from_points L (good_points xdata ydata fn) xgrid ygrid = Inr g"
    and "\<forall>n\<in>set ns. n < length fgrid"
    and "globals s ''fgrid'' = Some (MArr3 fgrid)"
  shows "\<exists>s'. for_in ns (interp_body L xdata ydata fdata xgrid ygrid) s = (s', None)"
  using assms
proof (induction ns arbitrary: s fgrid)
  case Nil
  then show ?case by simp
next
  case (Cons n ns)
  let ?body = "interp_body L xdata ydata fdata xgrid ygrid"
  from Cons.prems(2) obtain fn g where fn: "getrow fdata n = Inr fn" "length fn = length xdata"
    and g: "grid_from_points L (good_points xdata ydata fn) xgrid ygrid = Inr g"
    by auto
  from Cons.prems(3) have n: "n < length fgrid" by simp
  from interp_body_runs [OF fn(1) Cons.prems(1) fn(2) Cons.prems(4) n g]
  obtain s1 where s1: "?body n s = (s1, None)" by blast
  from interp_body_step [OF fn(1) Cons.prems(1) fn(2) Cons.prems(4) n s1]
  obtain g' where fg1: "globals s1 ''fgrid'' = Some (MArr3 (fgrid[n := g']))" by blast
  have "\<exists>s'. for_in ns ?body s1 = (s', None)"
    using Cons.prems(1,2,3) by (intro Cons.IH [OF _ _ _ fg1]) auto
  with s1 show ?case by auto
qed

lemma remove_bad_shape:
  assumes "remove_bad a idx = Inr b"
  shows "shape0 b = shape0 a" "shape1 b = shape1 a" "length (flat b) = length (flat a)"
  using assms by (auto simp: remove_bad_def flat_assign_def length_fold_update split: if_splits)

lemma cell_fdata_rows:
  assumes "cell_fdata R = Inr fdata" "n < Ntimes"
  shows "\<exists>fn. getrow fdata n = Inr fn \<and> length fn = Ndatapoints"
proof -
  from assms(1) have sh: "shape0 fdata = Ntimes" "shape1 fdata = Ndatapoints"
      "length (flat fdata) = Ntimes * Ndatapoints"
    using remove_bad_shape [of "cell_wave R" "cell_idx R" fdata] by (simp_all add: cell_fdata_def)
  from assms(2) have "Suc n * Ndatapoints \<le> Ntimes * Ndatapoints"
    by (intro mult_le_mono1) simp
  with sh assms(2) show ?thesis by (simp add: getrow_def)
qed

lemma cell_grid_shape:
  "length cell_xgrid = 60" "length cell_ygrid = 60"
  "\<forall>r\<in>set cell_xgrid. length r = 50" "\<forall>r\<in>set cell_ygrid. length r = 50"
  by (auto simp: cell_xgrid_def cell_ygrid_def mgrid_def linspace01_def)

text \<open>The state in which the loop starts binds \<open>fgrid\<close> to \<open>Ntimes\<close> unassigned slices.\<close>

lemma gridding_cell_loop:
  assumes "R = cell_draws G (generator s0)" and "cell_fdata R = Inr fdata"
  shows "\<exists>s13. globals s13 ''fgrid'' = Some (MArr3 (replicate Ntimes (ma_empty L)))
       \<and> gridding_cell L G s0
           = for_in [0..<Ntimes] (interp_body L (cell_xdata R) (cell_ydata R) fdata cell_xgrid cell_ygrid) s13"
  using assms
  apply (simp add: gridding_cell_def Let_def for_range_for_in)
  apply (rule exI)
  apply (rule conjI)
   prefer 2
   apply (rule refl)
  apply simp
  done

text \<open>
  Claim C1. When the cell has run to its end, \<open>fgrid\<close> has \<open>Ntimes = 20\<close> slices and,
  for every time step \<open>n < 20\<close>, slice \<open>n\<close> is the interpolant of exactly the points
  \<open>(xdata[i], ydata[i])\<close> whose value \<open>fdata[n][i]\<close> is not NaN, evaluated on the fixed
  60-by-50 grid \<open>(xgrid, ygrid)\<close>: it is a function of the library, the selected points
  and the grid, so no other point influences it.
\<close>

theorem gridding_by_time_step:
  assumes "gridding_cell L G s0 = (s, None)"
  shows "\<exists>fdata fgrid. cell_fdata (cell_draws G (generator s0)) = Inr fdata
       \<and> globals s ''fgrid'' = Some (MArr3 fgrid) \<and> length fgrid = 20
       \<and> length cell_xgrid = 60 \<and> length cell_ygrid = 60
       \<and> (\<forall>r\<in>set cell_xgrid. length r = 50) \<and> (\<forall>r\<in>set cell_ygrid. length r = 50)
       \<and> (\<forall>n<20. \<exists>fn. getrow fdata n = Inr fn
             \<and> grid_from_points L
                   (good_points (cell_xdata (cell_draws G (generator s0)))
                      (cell_ydata (cell_draws G (generator s0))) fn)
                   cell_xgrid cell_ygrid
                 = Inr (fgrid ! n))"
proof -
  define R where "R = cell_draws G (generator s0)"
  from assms obtain fdata where fdata: "cell_fdata R = Inr fdata"
    by (cases "cell_fdata R") (auto simp: gridding_cell_def Let_def R_def)
  let ?body = "interp_body L (cell_xdata R) (cell_ydata R) fdata cell_xgrid cell_ygrid"
  from gridding_cell_loop [OF R_def fdata, of L] assms obtain s13
    where s13: "globals s13 ''fgrid'' = Some (MArr3 (replicate Ntimes (ma_empty L)))"
      and loop: "for_in [0..<Ntimes] ?body s13 = (s, None)" by auto
  have rows: "\<forall>n\<in>set [0..<Ntimes]. \<exists>fn. getrow fdata n = Inr fn \<and> length fn = length (cell_xdata R)"
    using cell_fdata_rows [OF fdata] by simp
  have "\<exists>fgrid'. globals s ''fgrid'' = Some (MArr3 fgrid')
           \<and> length fgrid' = length (replicate Ntimes (ma_empty L))
           \<and> (\<forall>n\<in>set [0..<Ntimes]. \<exists>fn. getrow fdata n = Inr fn
                 \<and> grid_from_points L (good_points (cell_xdata R) (cell_ydata R) fn) cell_xgrid cell_ygrid
                     = Inr (fgrid' ! n))
           \<and> (\<forall>n. n \<notin> set [0..<Ntimes] \<longrightarrow> fgrid' ! n = replicate Ntimes (ma_empty L) ! n)"
    by (rule interp_loop_inv [OF loop _ rows _ _ s13]) simp_all
  then obtain fgrid where fg: "globals s ''fgrid'' = Some (MArr3 fgrid)" "length fgrid = Ntimes"
    "\<forall>n<Ntimes. \<exists>fn. getrow fdata n = Inr fn
         \<and> grid_from_points L (good_points (cell_xdata R) (cell_ydata R) fn) cell_xgrid cell_ygrid
             = Inr (fgrid ! n)"
    by auto
  with fdata cell_grid_shape show ?thesis
    unfolding Ntimes_def R_def by blast
qed

lemma gridding_cell_completes:
  assumes "R = cell_draws G (generator s0)" and "cell_fdata R = Inr fdata"
    and "\<forall>n<Ntimes. \<forall>fn. getrow fdata n = Inr fn \<longrightarrow>
           (\<exists>g. grid_from_points L (good_points (cell_xdata R) (cell_ydata R) fn) cell_xgrid cell_ygrid = Inr g)"
  shows "\<exists>s. gridding_cell L G s0 = (s, None)"
proof -
  let ?body = "interp_body L (cell_xdata R) (cell_ydata R) fdata cell_xgrid cell_ygrid"
  from gridding_cell_loop [OF assms(1,2), of L] obtain s13
    where s13: "globals s13 ''fgrid'' = Some (MArr3 (replicate Ntimes (ma_empty L)))"
      and cell: "gridding_cell L G s0 = for_in [0..<Ntimes] ?body s13" by auto
  have rows: "\<forall>n\<in>set [0..<Ntimes]. \<exists>fn g. getrow fdata n = Inr fn \<and> length fn = length (cell_xdata R)
       \<and> grid_from_points L (good_points (cell_xdata R) (cell_ydata R) fn) cell_xgrid cell_ygrid = Inr g"
    using cell_fdata_rows [OF assms(2)] assms(3) by (auto; metis)
  have "\<exists>s'. for_in [0..<Ntimes] ?body s13 = (s', None)"
    by (rule interp_loop_runs [OF _ rows _ s13]) simp_all
  with cell show ?thesis by simp
qed

lemma example_generator_draws: "cell_draws example_generator 0 = example_draws"
  by (simp add: cell_draws_def example_generator_def example_draws_def Ndatapoints_def)

theorem gridding_by_time_step_witness:
  "\<exists>s fgrid. gridding_cell example_tri example_generator
                \<lparr>globals = Map.empty, files = Map.empty, generator = 0\<rparr> = (s, None)
      \<and> globals s ''fgrid'' = Some (MArr3 fgrid) \<and> length fgrid = 20"
proof -
  let ?s0 = "\<lparr>globals = Map.empty, files = Map.empty, generator = 0\<rparr> :: (nat, nat, nat, nat) notebook"
  have R: "example_draws = cell_draws example_generator (generator ?s0)"
    by (simp add: example_generator_draws)
  have h: "mset (cell_idx example_draws) = mset (arange (size_of (cell_wave example_draws)))"
    by (simp add: cell_idx_def shuffled_indices_def example_draws_def)
  from cell_fdata_shuffled(1) [OF h] obtain fdata where fdata: "cell_fdata example_draws = Inr fdata"
    by blast
  have "\<exists>s. gridding_cell example_tri example_generator ?s0 = (s, None)"
    by (rule gridding_cell_completes [OF R fdata]) (simp add: grid_from_points_def example_tri_def)
  then obtain s where s: "gridding_cell example_tri example_generator ?s0 = (s, None)" ..
  from gridding_by_time_step [OF s] s show ?thesis by blast
qed

section \<open>What the loop hands to the triangulation\<close>

lemma cell_rows_good:
  assumes "mset (cell_idx R) = mset (arange (size_of (cell_wave R)))"
  shows "\<exists>fdata. cell_fdata R = Inr fdata \<and>
     (\<forall>n<Ntimes. \<exists>fn xgood ygood fgood.
        getrow fdata n = Inr fn \<and> length fn = 1000 \<and> length (filter isnan fn) \<le> 200
      \<and> bool_index (cell_xdata R) (map (\<lambda>v. \<not> isnan v) fn) = Inr xgood
      \<and> bool_index (cell_ydata R) (map (\<lambda>v. \<not> isnan v) fn) = Inr ygood
      \<and> bool_index fn (map (\<lambda>v. \<not> isnan v) fn) = Inr fgood
      \<and> length ygood = length xgood \<and> length fgood = length xgood
      \<and> 800 \<le> length xgood \<and> 3 \<le> length xgood)"
proof -
  let ?bad = "take Nbad (cell_idx R)"
  let ?fdata = "(cell_wave R)\<lparr>flat := fold (\<lambda>k d. d[k := NaN]) ?bad (flat (cell_wave R))\<rparr>"
  note facts = cell_fdata_shuffled [OF assms]
  have total: "length (filter isnan (flat ?fdata)) = Nbad"
    using count_nan_after_assign [of ?bad "flat (cell_wave R)"] facts(5,6,7) cell_wave_no_nan [of _ R]
    by auto
  have row: "\<exists>fn xgood ygood fgood.
        getrow ?fdata n = Inr fn \<and> length fn = 1000 \<and> length (filter isnan fn) \<le> 200
      \<and> bool_index (cell_xdata R) (map (\<lambda>v. \<not> isnan v) fn) = Inr xgood
      \<and> bool_index (cell_ydata R) (map (\<lambda>v. \<not> isnan v) fn) = Inr ygood
      \<and> bool_index fn (map (\<lambda>v. \<not> isnan v) fn) = Inr fgood
      \<and> length ygood = length xgood \<and> length fgood = length xgood
      \<and> 800 \<le> length xgood \<and> 3 \<le> length xgood" if n: "n < Ntimes" for n
  proof -
    let ?fn = "take Ndatapoints (drop (n * Ndatapoints) (flat ?fdata))"
    let ?igood = "map (\<lambda>v. \<not> isnan v) ?fn"
    have r: "getrow ?fdata n = Inr ?fn" using n by (simp add: getrow_def)
    from n have "Suc n * Ndatapoints \<le> Ntimes * Ndatapoints"
      by (intro mult_le_mono1) simp
    then have len: "length ?fn = Ndatapoints"
      by (simp add: length_fold_update)
    have "length (filter isnan ?fn) \<le> length (filter isnan (flat ?fdata))"
      by (rule count_slice_le)
    with total have nan: "length (filter isnan ?fn) \<le> Nbad" by simp
    obtain xgood where x: "bool_index (cell_xdata R) ?igood = Inr xgood"
      using len by (simp add: bool_index_def)
    obtain ygood where y: "bool_index (cell_ydata R) ?igood = Inr ygood"
      using len by (simp add: bool_index_def)
    obtain fgood where f: "bool_index ?fn ?igood = Inr fgood"
      by (simp add: bool_index_def)
    have lx: "length xgood = Ndatapoints - length (filter isnan ?fn)"
      using length_bool_index [OF x] len by (simp only: count_good)
    have ly: "length ygood = Ndatapoints - length (filter isnan ?fn)"
      using length_bool_index [OF y] len by (simp only: count_good)
    have lf: "length fgood = Ndatapoints - length (filter isnan ?fn)"
      using length_bool_index [OF f] len by (simp only: count_good)
    from lx nan have "800 \<le> length xgood" by (simp add: Ndatapoints_def Nbad_def)
    with r len nan x y f lx ly lf show ?thesis
      by (auto simp: Ndatapoints_def Nbad_def)
  qed
  from facts(1) row show ?thesis by blast
qed

lemma length_good_points:
  assumes "length ydata = length xdata" "length fn = length xdata"
  shows "length (good_points xdata ydata fn) = length fn - length (filter isnan fn)"
proof -
  have "length (map fst (good_points xdata ydata fn))
          = length (filter (\<lambda>b. b) (map (\<lambda>v. \<not> isnan v) fn))"
    by (rule length_bool_index [OF bool_index_good_points(1) [OF assms]])
  then show ?thesis by (simp only: count_good length_map)
qed

lemma for_in_cong:
  assumes "\<And>x s. x \<in> set xs \<Longrightarrow> body x s = body' x s"
  shows "for_in xs body s = for_in xs body' s"
  using assms by (induction xs arbitrary: s) (auto split: prod.splits option.splits)

text \<open>A step that selects at least \<open>k\<close> points runs the same with a library that
  refuses fewer.\<close>

lemma interp_body_needs_points:
  assumes row: "getrow fdata n = Inr fn"
    and len: "length ydata = length xdata" "length fn = length xdata"
    and enough: "k \<le> length fn - length (filter isnan fn)"
  shows "interp_body (needs_points k L) xdata ydata fdata xgrid ygrid n s
           = interp_body L xdata ydata fdata xgrid ygrid n s"
proof -
  from enough have "k \<le> length (good_points xdata ydata fn)"
    by (simp add: length_good_points [OF len])
  then show ?thesis
    using row unfolding interp_body_def
    by (simp add: Let_def bool_index_good_points [OF len] needs_points_def setitem_fgrid_def
             split: sum.splits)
qed

lemma gridding_cell_needs_points:
  assumes "R = cell_draws G (generator s0)"
    and "mset (cell_idx R) = mset (arange (size_of (cell_wave R)))"
    and "k \<le> 800"
  shows "gridding_cell (needs_points k L) G s0 = gridding_cell L G s0"
proof -
  from cell_rows_good [OF assms(2)] obtain fdata where fdata: "cell_fdata R = Inr fdata"
    and rows: "\<forall>n<Ntimes. \<exists>fn. getrow fdata n = Inr fn \<and> length fn = 1000
                 \<and> length (filter isnan fn) \<le> 200"
    by blast
  have "for_in [0..<Ntimes]
          (interp_body (needs_points k L) (cell_xdata R) (cell_ydata R) fdata cell_xgrid cell_ygrid) s
        = for_in [0..<Ntimes]
          (interp_body L (cell_xdata R) (cell_ydata R) fdata cell_xgrid cell_ygrid) s" for s
  proof (rule for_in_cong)
    fix n s' assume "n \<in> set [0..<Ntimes]"
    with rows obtain fn where fn: "getrow fdata n = Inr fn" "length fn = 1000"
      "length (filter isnan fn) \<le> 200" by auto
    from fn(2,3) assms(3) have enough: "k \<le> length fn - length (filter isnan fn)" by linarith
    show "interp_body (needs_points k L) (cell_xdata R) (cell_ydata R) fdata cell_xgrid cell_ygrid n s'
            = interp_body L (cell_xdata R) (cell_ydata R) fdata cell_xgrid cell_ygrid n s'"
      by (rule interp_body_needs_points [OF fn(1) _ _ enough]) (simp_all add: fn(2) Ndatapoints_def)
  qed
  moreover have "ma_empty (needs_points k L) = ma_empty L" by (simp add: needs_points_def)
  ultimately show ?thesis
    using fdata assms(1) by (simp add: gridding_cell_def Let_def for_range_for_in)
qed

text \<open>The step hands the selected arrays to the library: what the library raises on
  them, the step raises.\<close>

lemma interp_body_hands_over:
  assumes "getrow fdata n = Inr fn"
    and "bool_index xdata (map (\<lambda>v. \<not> isnan v) fn) = Inr xgood"
    and "bool_index ydata (map (\<lambda>v. \<not> isnan v) fn) = Inr ygood"
    and "bool_index fn (map (\<lambda>v. \<not> isnan v) fn) = Inr fgood"
  shows "Triangulation L xgood ygood = Inl e \<Longrightarrow>
           snd (interp_body L xdata ydata fdata xgrid ygrid n s) = Some e"
    and "Triangulation L xgood ygood = Inr t \<Longrightarrow> LinearTriInterpolator L t fgood = Inl e \<Longrightarrow>
           snd (interp_body L xdata ydata fdata xgrid ygrid n s) = Some e"
  using assms unfolding interp_body_def by (simp_all add: Let_def)

lemma interp_body_triangulation_raises:
  assumes row: "getrow fdata n = Inr fn"
    and len: "length ydata = length xdata" "length fn = length xdata"
    and tri: "Triangulation L (map fst (good_points xdata ydata fn))
                (map (fst \<circ> snd) (good_points xdata ydata fn)) = Inl e"
  shows "\<exists>s'. interp_body L xdata ydata fdata xgrid ygrid n s = (s', Some e)
              \<and> globals s' ''n'' = Some (IntV n)"
  using row tri unfolding interp_body_def
  by (simp add: Let_def bool_index_good_points [OF len])

lemma good_points_coordinates:
  assumes "p \<in> set (zip (map fst (good_points xdata ydata fn)) (map (fst \<circ> snd) (good_points xdata ydata fn)))"
  shows "fst p \<in> set xdata \<and> snd p \<in> set ydata"
proof -
  from assms obtain q where q: "q \<in> set (good_points xdata ydata fn)" and p: "p = (fst q, fst (snd q))"
    by (auto simp: zip_map_map zip_same_conv_map)
  from q have mem: "(fst q, fst (snd q), snd (snd q)) \<in> set (zip xdata (zip ydata fn))"
    by (simp add: good_points_def)
  from mem have x: "fst q \<in> set xdata" by (rule set_zip_leftD)
  from mem have "(fst (snd q), snd (snd q)) \<in> set (zip ydata fn)" by (rule set_zip_rightD)
  then have y: "fst (snd q) \<in> set ydata" by (rule set_zip_leftD)
  note x y
  with p show ?thesis by simp
qed

lemma coincident_draws:
  "cell_draws coincident_generator g = \<lparr>draw_x = (\<lambda>i. 1 / 2), draw_y = (\<lambda>i. 1 / 2), shuffle = rev\<rparr>"
  by (simp add: cell_draws_def coincident_generator_def)


text \<open>
  Claim C10, as amended. When the shuffle has permuted the flat indices, every row of
  \<open>fdata\<close> has 1000 entries of which at most \<open>Nbad = 200\<close> are NaN, so the mask \<open>igood\<close>
  selects at least 800 points, with as many y coordinates and values, and these are the
  arrays the loop body hands to the library at that step (what the library raises on
  them, the step raises). The loop never hands the library an empty point set or one of
  fewer than three points: the cell runs the same, in every notebook and with every
  library, when the triangulation refuses fewer than 800 points (or fewer than three)
  or x and y arrays of different lengths, and the interpolator fewer than 800 (or
  three) values. Whether the selected points are distinct and not collinear is left to
  the random draws.
\<close>

theorem enough_good_points:
  assumes "R = cell_draws G (generator s0)"
    and "mset (cell_idx R) = mset (arange (size_of (cell_wave R)))"
  shows "(\<exists>fdata. cell_fdata R = Inr fdata \<and>
           (\<forall>n<Ntimes. \<exists>fn xgood ygood fgood.
              getrow fdata n = Inr fn \<and> length fn = 1000 \<and> length (filter isnan fn) \<le> 200
            \<and> bool_index (cell_xdata R) (map (\<lambda>v. \<not> isnan v) fn) = Inr xgood
            \<and> bool_index (cell_ydata R) (map (\<lambda>v. \<not> isnan v) fn) = Inr ygood
            \<and> bool_index fn (map (\<lambda>v. \<not> isnan v) fn) = Inr fgood
            \<and> length ygood = length xgood \<and> length fgood = length xgood
            \<and> 800 \<le> length xgood \<and> 3 \<le> length xgood
            \<and> (\<forall>s e. Triangulation L xgood ygood = Inl e \<longrightarrow>
                  snd (interp_body L (cell_xdata R) (cell_ydata R) fdata cell_xgrid cell_ygrid n s)
                    = Some e)
            \<and> (\<forall>s t e. Triangulation L xgood ygood = Inr t
                    \<and> LinearTriInterpolator L t fgood = Inl e \<longrightarrow>
                  snd (interp_body L (cell_xdata R) (cell_ydata R) fdata cell_xgrid cell_ygrid n s)
                    = Some e)))
       \<and> gridding_cell (needs_points 800 L) G s0 = gridding_cell L G s0
       \<and> gridding_cell (needs_points 3 L) G s0 = gridding_cell L G s0"
proof (intro conjI)
  from cell_rows_good [OF assms(2)] obtain fdata where fdata: "cell_fdata R = Inr fdata"
    and rows: "\<forall>n<Ntimes. \<exists>fn xgood ygood fgood.
        getrow fdata n = Inr fn \<and> length fn = 1000 \<and> length (filter isnan fn) \<le> 200
      \<and> bool_index (cell_xdata R) (map (\<lambda>v. \<not> isnan v) fn) = Inr xgood
      \<and> bool_index (cell_ydata R) (map (\<lambda>v. \<not> isnan v) fn) = Inr ygood
      \<and> bool_index fn (map (\<lambda>v. \<not> isnan v) fn) = Inr fgood
      \<and> length ygood = length xgood \<and> length fgood = length xgood
      \<and> 800 \<le> length xgood \<and> 3 \<le> length xgood"
    by blast
  have "\<exists>fn xgood ygood fgood.
        getrow fdata n = Inr fn \<and> length fn = 1000 \<and> length (filter isnan fn) \<le> 200
      \<and> bool_index (cell_xdata R) (map (\<lambda>v. \<not> isnan v) fn) = Inr xgood
      \<and> bool_index (cell_ydata R) (map (\<lambda>v. \<not> isnan v) fn) = Inr ygood
      \<and> bool_index fn (map (\<lambda>v. \<not> isnan v) fn) = Inr fgood
      \<and> length ygood = length xgood \<and> length fgood = length xgood
      \<and> 800 \<le> length xgood \<and> 3 \<le> length xgood
      \<and> (\<forall>s e. Triangulation L xgood ygood = Inl e \<longrightarrow>
            snd (interp_body L (cell_xdata R) (cell_ydata R) fdata cell_xgrid cell_ygrid n s)
              = Some e)
      \<and> (\<forall>s t e. Triangulation L xgood ygood = Inr t
              \<and> LinearTriInterpolator L t fgood = Inl e \<longrightarrow>
            snd (interp_body L (cell_xdata R) (cell_ydata R) fdata cell_xgrid cell_ygrid n s)
              = Some e)" if "n < Ntimes" for n
  proof -
    from rows that obtain fn xgood ygood fgood where r:
      "getrow fdata n = Inr fn" "length fn = 1000" "length (filter isnan fn) \<le> 200"
      "bool_index (cell_xdata R) (map (\<lambda>v. \<not> isnan v) fn) = Inr xgood"
      "bool_index (cell_ydata R) (map (\<lambda>v. \<not> isnan v) fn) = Inr ygood"
      "bool_index fn (map (\<lambda>v. \<not> isnan v) fn) = Inr fgood"
      "length ygood = length xgood" "length fgood = length xgood"
      "800 \<le> length xgood" "3 \<le> length xgood"
      by blast
    note hands = interp_body_hands_over [OF r(1,4,5,6), of L]
    have "\<forall>s e. Triangulation L xgood ygood = Inl e \<longrightarrow>
            snd (interp_body L (cell_xdata R) (cell_ydata R) fdata cell_xgrid cell_ygrid n s)
              = Some e"
      using hands(1) by blast
    moreover have "\<forall>s t e. Triangulation L xgood ygood = Inr t
              \<and> LinearTriInterpolator L t fgood = Inl e \<longrightarrow>
            snd (interp_body L (cell_xdata R) (cell_ydata R) fdata cell_xgrid cell_ygrid n s)
              = Some e"
      using hands(2) by blast
    ultimately show ?thesis using r by blast
  qed
  with fdata show "\<exists>fdata. cell_fdata R = Inr fdata \<and>
           (\<forall>n<Ntimes. \<exists>fn xgood ygood fgood.
              getrow fdata n = Inr fn \<and> length fn = 1000 \<and> length (filter isnan fn) \<le> 200
            \<and> bool_index (cell_xdata R) (map (\<lambda>v. \<not> isnan v) fn) = Inr xgood
            \<and> bool_index (cell_ydata R) (map (\<lambda>v. \<not> isnan v) fn) = Inr ygood
            \<and> bool_index fn (map (\<lambda>v. \<not> isnan v) fn) = Inr fgood
            \<and> length ygood = length xgood \<and> length fgood = length xgood
            \<and> 800 \<le> length xgood \<and> 3 \<le> length xgood
            \<and> (\<forall>s e. Triangulation L xgood ygood = Inl e \<longrightarrow>
                  snd (interp_body L (cell_xdata R) (cell_ydata R) fdata cell_xgrid cell_ygrid n s)
                    = Some e)
            \<and> (\<forall>s t e. Triangulation L xgood ygood = Inr t
                    \<and> LinearTriInterpolator L t fgood = Inl e \<longrightarrow>
                  snd (interp_body L (cell_xdata R) (cell_ydata R) fdata cell_xgrid cell_ygrid n s)
                    = Some e))"
    by blast
  show "gridding_cell (needs_points 800 L) G s0 = gridding_cell L G s0"
    by (rule gridding_cell_needs_points [OF assms]) simp
  show "gridding_cell (needs_points 3 L) G s0 = gridding_cell L G s0"
    by (rule gridding_cell_needs_points [OF assms]) simp
qed

text \<open>
  Claim C10 as stated also says that the loop body never runs on a degenerate point
  set. When every draw is the same value, all scattered points coincide: the first
  step hands the library more than three points but only one distinct point, and a
  library that refuses such a set, as \<^verbatim>\<open>matplotlib.tri\<close> does, raises there.
\<close>

theorem coincident_points_reach_triangulation:
  "snd (gridding_cell strict_tri coincident_generator
          \<lparr>globals = Map.empty, files = Map.empty, generator = 0\<rparr>) = Some RuntimeError
   \<and> globals (fst (gridding_cell strict_tri coincident_generator
          \<lparr>globals = Map.empty, files = Map.empty, generator = 0\<rparr>)) ''n'' = Some (IntV 0)"
proof -
  let ?s0 = "\<lparr>globals = Map.empty, files = Map.empty, generator = 0\<rparr> :: (nat, nat, nat, nat) notebook"
  define R where "R = cell_draws coincident_generator (generator ?s0)"
  have R': "R = \<lparr>draw_x = (\<lambda>i. 1 / 2), draw_y = (\<lambda>i. 1 / 2), shuffle = rev\<rparr>"
    by (simp add: R_def coincident_draws)
  have perm: "mset (cell_idx R) = mset (arange (size_of (cell_wave R)))"
    by (simp add: cell_idx_def shuffled_indices_def R')
  have xs: "set (cell_xdata R) \<subseteq> {1 / 2}" and ys: "set (cell_ydata R) \<subseteq> {1 / 2}"
    by (auto simp: cell_xdata_def cell_ydata_def rand_def R')
  have zero: "0 < Ntimes" by (simp add: Ntimes_def)
  from cell_rows_good [OF perm] zero obtain fdata fn
    where fdata: "cell_fdata R = Inr fdata" and fn: "getrow fdata 0 = Inr fn" "length fn = 1000"
      "length (filter isnan fn) \<le> 200" by blast
  let ?gp = "good_points (cell_xdata R) (cell_ydata R) fn"
  let ?pts = "zip (map fst ?gp) (map (fst \<circ> snd) ?gp)"
  have len: "length (cell_ydata R) = length (cell_xdata R)" "length fn = length (cell_xdata R)"
    by (simp_all add: fn(2) Ndatapoints_def)
  have many: "\<not> length (map fst ?gp) < 3"
    using length_good_points [OF len] fn(2,3) by simp
  have "set ?pts \<subseteq> {(1 / 2, 1 / 2)}"
  proof
    fix p assume "p \<in> set ?pts"
    from good_points_coordinates [OF this] xs ys show "p \<in> {(1 / 2, 1 / 2)}"
      by (auto simp: prod_eq_iff)
  qed
  then have "card (set ?pts) \<le> card {(1 / 2 :: real, 1 / 2 :: real)}"
    by (intro card_mono) simp_all
  then have few: "length (remdups ?pts) < 3" by (simp add: length_remdups_card_conv)
  from many few have tri: "Triangulation strict_tri (map fst ?gp) (map (fst \<circ> snd) ?gp) = Inl RuntimeError"
    by (simp add: strict_tri_def)
  let ?body = "interp_body strict_tri (cell_xdata R) (cell_ydata R) fdata cell_xgrid cell_ygrid"
  from gridding_cell_loop [OF R_def fdata, of strict_tri] obtain s13
    where cell: "gridding_cell strict_tri coincident_generator ?s0 = for_in [0..<Ntimes] ?body s13"
    by blast
  from interp_body_triangulation_raises [OF fn(1) len tri, of cell_xgrid cell_ygrid s13]
  obtain s' where step: "?body 0 s13 = (s', Some RuntimeError)" and n: "globals s' ''n'' = Some (IntV 0)"
    by blast
  from zero have "[0..<Ntimes] = 0 # [1..<Ntimes]" by (simp add: upt_rec)
  with step have "for_in [0..<Ntimes] ?body s13 = (s', Some RuntimeError)" by simp
  with cell n show ?thesis by simp
qed

theorem enough_good_points_witness:
  "example_draws = cell_draws example_generator
       (generator (\<lparr>globals = Map.empty, files = Map.empty, generator = 0\<rparr>
                     :: (nat, nat, nat, nat) notebook))
   \<and> mset (cell_idx example_draws) = mset (arange (size_of (cell_wave example_draws)))
   \<and> (\<exists>fdata fn. cell_fdata example_draws = Inr fdata
         \<and> getrow fdata 19 = Inr fn \<and> length (filter isnan fn) \<le> 200)
   \<and> gridding_cell (needs_points 800 example_tri) example_generator
        \<lparr>globals = Map.empty, files = Map.empty, generator = 0\<rparr>
     = gridding_cell example_tri example_generator
        \<lparr>globals = Map.empty, files = Map.empty, generator = 0\<rparr>"
proof -
  let ?s0 = "\<lparr>globals = Map.empty, files = Map.empty, generator = 0\<rparr> :: (nat, nat, nat, nat) notebook"
  have R: "example_draws = cell_draws example_generator (generator ?s0)"
    by (simp add: example_generator_draws)
  have h: "mset (cell_idx example_draws) = mset (arange (size_of (cell_wave example_draws)))"
    by (simp add: cell_idx_def shuffled_indices_def example_draws_def)
  have n: "19 < Ntimes" by (simp add: Ntimes_def)
  note good = enough_good_points [OF R h, of example_tri]
  from good [THEN conjunct1] n
  have "\<exists>fdata fn. cell_fdata example_draws = Inr fdata
         \<and> getrow fdata 19 = Inr fn \<and> length (filter isnan fn) \<le> 200"
    by blast
  with good [THEN conjunct2, THEN conjunct1] R h show ?thesis by blast
qed

section \<open>What the gridding cell changes\<close>

lemma for_in_invariant:
  assumes "\<And>x s. x \<in> set xs \<Longrightarrow> P s \<Longrightarrow> P (fst (body x s))" and "P s"
  shows "P (fst (for_in xs body s))"
  using assms
proof (induction xs arbitrary: s)
  case Nil
  then show ?case by simp
next
  case (Cons x xs)
  have step: "P (fst (body x s))" by (rule Cons.prems(1)) (simp_all add: Cons.prems(2))
  have "P (fst (for_in xs body (fst (body x s))))"
    by (rule Cons.IH [OF _ step]) (simp add: Cons.prems(1))
  with step show ?case by (auto split: prod.splits option.splits)
qed




text \<open>The commented lines, were they run, would leave a file \<^verbatim>\<open>output/foo.nc\<close> on disk
  in every case, with the author attribute when nothing raises.\<close>

lemma writer_statement_keeps_file:
  assumes "statement \<in> set writer_statements" "files s ''output/foo.nc'' \<noteq> None"
  shows "files (fst (statement s)) ''output/foo.nc'' \<noteq> None"
  using assms
  by (auto simp: writer_statements_def on_file_def on_variable_def write_variable_def set_units_def
           split: option.splits sum.splits)

lemma netcdf_writer_creates_file: "files (fst (netcdf_writer s)) ''output/foo.nc'' \<noteq> None"
proof -
  obtain s1 where s1: "open_for_writing ''output/foo.nc'' s = (s1, None)"
    and f1: "files s1 ''output/foo.nc'' \<noteq> None"
    by (simp add: open_for_writing_def)
  have "files (fst (for_in writer_statements (\<lambda>statement. statement) s1)) ''output/foo.nc'' \<noteq> None"
    by (rule for_in_invariant [where P = "\<lambda>s'. files s' ''output/foo.nc'' \<noteq> None"])
       (simp_all add: writer_statement_keeps_file f1)
  with s1 show ?thesis by (simp add: netcdf_writer_def)
qed





section \<open>The hurricane tracks\<close>

text \<open>A loop whose body appends one item or raises collects the items up to the first
  failure.\<close>

lemma for_in_append_until_failure:
  assumes "\<And>x acc. x \<in> set xs \<Longrightarrow>
             body x acc = (case f x of Inl e \<Rightarrow> (acc, Some e) | Inr y \<Rightarrow> (acc @ [y], None))"
  shows "fst (for_in xs body acc) = acc @ map projr (takeWhile (\<lambda>r. \<not> isl r) (map f xs))"
  using assms
proof (induction xs arbitrary: acc)
  case Nil
  then show ?case by simp
next
  case (Cons x xs)
  have step: "body x acc = (case f x of Inl e \<Rightarrow> (acc, Some e) | Inr y \<Rightarrow> (acc @ [y], None))"
    by (rule Cons.prems) simp
  show ?case
  proof (cases "f x")
    case (Inl e)
    with step show ?thesis by simp
  next
    case (Inr y)
    have "fst (for_in xs body (acc @ [y])) = (acc @ [y]) @ map projr (takeWhile (\<lambda>r. \<not> isl r) (map f xs))"
      by (rule Cons.IH) (simp add: Cons.prems)
    with step Inr show ?thesis by simp
  qed
qed

text \<open>A loop whose body appends some items and never raises collects them all.\<close>

lemma for_in_append_all:
  assumes "\<And>x acc. x \<in> set xs \<Longrightarrow> body x acc = (acc @ g x, None)"
  shows "for_in xs body acc = (acc @ concat (map g xs), None)"
  using assms
proof (induction xs arbitrary: acc)
  case Nil
  then show ?case by simp
next
  case (Cons x xs)
  have "for_in xs body (acc @ g x) = ((acc @ g x) @ concat (map g xs), None)"
    by (rule Cons.IH) (simp add: Cons.prems)
  moreover have "body x acc = (acc @ g x, None)" by (rule Cons.prems) simp
  ultimately show ?case by simp
qed

lemma map_over_indices: "map (\<lambda>i. f (xs ! i)) [0..<length xs] = map f xs"
  by (rule nth_equalityI) simp_all

lemma storm_body_in_range:
  assumes "decade < length folders" "placemarks_of (folders ! decade) = Inr pms" "storm < length pms"
  shows "storm_body fromstring folders decade storm tracks =
           (case storm_track fromstring (pms ! storm) of
              Inl e \<Rightarrow> (tracks, Some e) | Inr track \<Rightarrow> (tracks @ [track], None))"
  using assms by (simp add: storm_body_def getitem_def)

lemma storms_loop_tracks:
  assumes "decade < length folders"
  shows "fst (storms_loop fromstring folders decade (folders ! decade) tracks)
           = tracks @ decade_tracks fromstring (folders ! decade)"
proof (cases "placemarks_of (folders ! decade)")
  case (Inl e)
  then show ?thesis by (simp add: storms_loop_def decade_tracks_def)
next
  case (Inr pms)
  have "fst (for_in [0..<length pms] (storm_body fromstring folders decade) tracks)
          = tracks @ map projr (takeWhile (\<lambda>r. \<not> isl r)
                                  (map (\<lambda>storm. storm_track fromstring (pms ! storm)) [0..<length pms]))"
    by (rule for_in_append_until_failure) (simp add: storm_body_in_range [OF assms Inr])
  moreover have "map (\<lambda>storm. storm_track fromstring (pms ! storm)) [0..<length pms]
                   = map (storm_track fromstring) pms"
    by (rule map_over_indices)
  ultimately show ?thesis
    using Inr by (simp add: storms_loop_def decade_tracks_def for_range_for_in)
qed

lemma decade_body_tracks:
  assumes "decade < length folders"
  shows "decade_body fromstring folders decade tracks
           = (tracks @ decade_tracks fromstring (folders ! decade), None)"
  using assms storms_loop_tracks [OF assms, of fromstring tracks]
  by (simp add: decade_body_def getitem_def try_except_pass_def)

lemma read_tracks_decades:
  "read_tracks fromstring folders
     = (concat (map (decade_tracks fromstring) folders),
        if folders = [] then Some AttributeError else None)"
proof (cases "folders = []")
  case True
  then show ?thesis by (simp add: read_tracks_def)
next
  case False
  have "for_in [0..<length folders] (decade_body fromstring folders) []
          = ([] @ concat (map (\<lambda>decade. decade_tracks fromstring (folders ! decade)) [0..<length folders]), None)"
    by (rule for_in_append_all) (simp add: decade_body_tracks)
  moreover have "map (\<lambda>decade. decade_tracks fromstring (folders ! decade)) [0..<length folders]
                   = map (decade_tracks fromstring) folders"
    by (rule map_over_indices)
  ultimately show ?thesis using False by (simp add: read_tracks_def for_range_for_in)
qed

lemma takeWhile_until_failure:
  assumes "\<forall>p\<in>set ok. \<not> isl (f p)" "isl (f pm)"
  shows "takeWhile (\<lambda>r. \<not> isl r) (map f (ok @ pm # rest)) = map f ok"
  using assms by (induction ok) auto

lemma takeWhile_no_failure:
  assumes "\<forall>p\<in>set pms. \<not> isl (f p)"
  shows "takeWhile (\<lambda>r. \<not> isl r) (map f pms) = map f pms"
  using assms by (induction pms) auto

text \<open>
  Claim C2. The reading loop never lets an exception out and visits every decade: the
  tracks it returns are those read before decade \<open>d\<close>, then those of \<open>d\<close>, then those
  of the decades after it, in order and unchanged. When storm \<open>pm\<close> of \<open>d\<close> raises after
  the storms \<open>ok\<close> were read, \<open>d\<close> contributes exactly the tracks of \<open>ok\<close>; when
  counting its placemarks raises, it contributes none; when nothing raises, it
  contributes the tracks of all its storms.
\<close>

theorem exception_in_decade_swallowed:
  "read_tracks fromstring (before @ d # after)
     = (fst (read_tracks fromstring before) @ decade_tracks fromstring d
          @ fst (read_tracks fromstring after), None)
   \<and> (\<forall>ok pm rest. placemarks_of d = Inr (ok @ pm # rest)
          \<and> (\<forall>p\<in>set ok. \<not> isl (storm_track fromstring p)) \<and> isl (storm_track fromstring pm)
        \<longrightarrow> decade_tracks fromstring d = map (\<lambda>p. projr (storm_track fromstring p)) ok)
   \<and> (\<forall>pms. placemarks_of d = Inr pms \<and> (\<forall>p\<in>set pms. \<not> isl (storm_track fromstring p))
        \<longrightarrow> decade_tracks fromstring d = map (\<lambda>p. projr (storm_track fromstring p)) pms)
   \<and> (\<forall>e. placemarks_of d = Inl e \<longrightarrow> decade_tracks fromstring d = [])"
proof (intro conjI allI impI)
  show "read_tracks fromstring (before @ d # after)
     = (fst (read_tracks fromstring before) @ decade_tracks fromstring d
          @ fst (read_tracks fromstring after), None)"
    by (simp add: read_tracks_decades)
next
  fix ok pm rest
  assume "placemarks_of d = Inr (ok @ pm # rest)
          \<and> (\<forall>p\<in>set ok. \<not> isl (storm_track fromstring p)) \<and> isl (storm_track fromstring pm)"
  then have pl: "placemarks_of d = Inr (ok @ pm # rest)"
    and ok: "\<forall>p\<in>set ok. \<not> isl (storm_track fromstring p)"
    and pm: "isl (storm_track fromstring pm)"
    by blast+
  have tw: "takeWhile (\<lambda>r. \<not> isl r) (map (storm_track fromstring) (ok @ pm # rest))
               = map (storm_track fromstring) ok"
    using ok pm by (rule takeWhile_until_failure)
  show "decade_tracks fromstring d = map (\<lambda>p. projr (storm_track fromstring p)) ok"
    unfolding decade_tracks_def pl sum.case tw by simp
next
  fix pms
  assume "placemarks_of d = Inr pms \<and> (\<forall>p\<in>set pms. \<not> isl (storm_track fromstring p))"
  then show "decade_tracks fromstring d = map (\<lambda>p. projr (storm_track fromstring p)) pms"
    by (simp add: decade_tracks_def takeWhile_no_failure comp_def)
next
  fix e
  assume "placemarks_of d = Inl e"
  then show "decade_tracks fromstring d = []" by (simp add: decade_tracks_def)
qed


theorem exception_in_decade_swallowed_witness:
  "placemarks_of (decade_folder [track_placemark ''5,6 7,8'', PlacemarkElem None,
                                 track_placemark ''9,9 9,9''])
     = Inr ([track_placemark ''5,6 7,8''] @ PlacemarkElem None # [track_placemark ''9,9 9,9''])
   \<and> \<not> isl (storm_track fromstring_unsigned (track_placemark ''5,6 7,8''))
   \<and> isl (storm_track fromstring_unsigned (PlacemarkElem None))
   \<and> read_tracks fromstring_unsigned
        ([decade_folder [track_placemark ''1,2,0 3,4,0'']]
         @ decade_folder [track_placemark ''5,6 7,8'', PlacemarkElem None,
                          track_placemark ''9,9 9,9'']
         # [decade_folder [track_placemark ''10,11,12'']])
     = ([\<lparr>shape0 = 2, shape1 = 2, flat = [1, 2, 3, 4]\<rparr>,
         \<lparr>shape0 = 2, shape1 = 2, flat = [5, 6, 7, 8]\<rparr>,
         \<lparr>shape0 = 1, shape1 = 2, flat = [10, 11]\<rparr>], None)"
proof -
  let ?p1 = "track_placemark ''5,6 7,8''"
  let ?p3 = "track_placemark ''9,9 9,9''"
  let ?d = "decade_folder [?p1, PlacemarkElem None, ?p3]"
  let ?b = "[decade_folder [track_placemark ''1,2,0 3,4,0'']]"
  let ?a = "[decade_folder [track_placemark ''10,11,12'']]"
  have pl: "placemarks_of ?d = Inr ([?p1] @ PlacemarkElem None # [?p3])"
    by (simp add: placemarks_of_def decade_folder_def)
  have s1: "storm_track fromstring_unsigned ?p1 = Inr \<lparr>shape0 = 2, shape1 = 2, flat = [5, 6, 7, 8]\<rparr>"
    by code_simp
  have s2: "storm_track fromstring_unsigned (PlacemarkElem None) = Inl AttributeError"
    by code_simp
  have b: "fst (read_tracks fromstring_unsigned ?b) = [\<lparr>shape0 = 2, shape1 = 2, flat = [1, 2, 3, 4]\<rparr>]"
    by code_simp
  have a: "fst (read_tracks fromstring_unsigned ?a) = [\<lparr>shape0 = 1, shape1 = 2, flat = [10, 11]\<rparr>]"
    by code_simp
  note sw = exception_in_decade_swallowed [of fromstring_unsigned ?b ?d ?a]
  have "decade_tracks fromstring_unsigned ?d
       = map (\<lambda>p. projr (storm_track fromstring_unsigned p)) [?p1]"
    using sw [THEN conjunct2, THEN conjunct1, rule_format, of "[?p1]" "PlacemarkElem None" "[?p3]"]
      pl s1 s2 by simp
  with s1 have d: "decade_tracks fromstring_unsigned ?d = [\<lparr>shape0 = 2, shape1 = 2, flat = [5, 6, 7, 8]\<rparr>]"
    by simp
  from sw [THEN conjunct1] b d a pl s1 s2 show ?thesis by simp
qed

section \<open>The shape of a collected track\<close>

lemma location_loop_rows:
  assumes "for_in locations (location_body fromstring) acc = (track, None)"
  shows "\<exists>rows. map fromstring locations = map Inr rows \<and> track = acc @ rows"
  using assms
proof (induction locations arbitrary: acc)
  case Nil
  then show ?case by simp
next
  case (Cons location locations)
  show ?case
  proof (cases "fromstring location")
    case (Inl e)
    then have "location_body fromstring location acc = (acc, Some e)"
      by (simp add: location_body_def)
    with Cons.prems show ?thesis by simp
  next
    case (Inr row)
    then have "location_body fromstring location acc = (acc @ [row], None)"
      by (simp add: location_body_def)
    with Cons.prems have rest: "for_in locations (location_body fromstring) (acc @ [row]) = (track, None)"
      by simp
    from Cons.IH [OF rest] obtain rows
      where "map fromstring locations = map Inr rows" "track = (acc @ [row]) @ rows" by blast
    with Inr have "map fromstring (location # locations) = map Inr (row # rows) \<and> track = acc @ row # rows"
      by simp
    then show ?thesis by blast
  qed
qed

lemma take_two_by_index:
  assumes "length r = k"
  shows "map (\<lambda>j. r ! j) [0..<min k 2] = take 2 r"
  using assms by (intro nth_equalityI) auto

lemma two_columns_of_rows:
  assumes "\<forall>r\<in>set rows. length r = k"
  shows "concat (map (\<lambda>r. map (\<lambda>j. concat rows ! (r * k + j)) [0..<min k 2]) [0..<length rows])
           = concat (map (take 2) rows)"
proof -
  have "map (\<lambda>r. map (\<lambda>j. concat rows ! (r * k + j)) [0..<min k 2]) [0..<length rows]
          = map (\<lambda>r. take 2 (rows ! r)) [0..<length rows]"
  proof (rule map_cong [OF refl])
    fix r assume "r \<in> set [0..<length rows]"
    then have r: "r < length rows" by simp
    with assms have len: "length (rows ! r) = k" by simp
    have "map (\<lambda>j. concat rows ! (r * k + j)) [0..<min k 2] = map (\<lambda>j. rows ! r ! j) [0..<min k 2]"
      using nth_concat_rows [OF assms r] by (intro map_cong [OF refl]) simp
    then show "map (\<lambda>j. concat rows ! (r * k + j)) [0..<min k 2] = take 2 (rows ! r)"
      by (simp only: take_two_by_index [OF len])
  qed
  then show ?thesis by (simp only: map_over_indices)
qed

lemma storm_track_unfold:
  assumes "track_text_of pm = Inr tt" "py_split tt = Inr locations"
    "for_in locations (location_body fromstring) [] = (rows, err)"
  shows "storm_track fromstring pm =
           (case err of Some e \<Rightarrow> Inl e
            | None \<Rightarrow> (case np_array rows of Inl e \<Rightarrow> Inl e | Inr a \<Rightarrow> first_two_columns a))"
  using assms by (simp add: storm_track_def split: option.splits)

lemma np_array_two_dimensional:
  assumes "np_array rows = Inr (Array2 m)"
  shows "rows \<noteq> []" "\<forall>r\<in>set rows. length r = length (hd rows)"
    "m = \<lparr>shape0 = length rows, shape1 = length (hd rows), flat = concat rows\<rparr>"
proof -
  from assms show ne: "rows \<noteq> []" by (auto simp: np_array_def)
  from assms ne have "\<not> list_ex (\<lambda>row. length row \<noteq> length (hd rows)) rows"
    by (auto simp: np_array_def split: if_splits)
  then show "\<forall>r\<in>set rows. length r = length (hd rows)"
    unfolding list_ex_iff by blast
  from assms ne show "m = \<lparr>shape0 = length rows, shape1 = length (hd rows), flat = concat rows\<rparr>"
    by (auto simp: np_array_def split: if_splits)
qed


lemma storm_track_rows:
  assumes "storm_track fromstring pm = Inr track"
  shows "\<exists>coords rows. track_text_of pm = Inr (Some coords)
           \<and> map fromstring (split_from [] coords) = map Inr rows
           \<and> rows \<noteq> [] \<and> (\<forall>r\<in>set rows. length r = length (hd rows))
           \<and> track = \<lparr>shape0 = length rows, shape1 = min (length (hd rows)) 2,
                       flat = concat (map (take 2) rows)\<rparr>"
proof -
  from assms obtain tt where tt: "track_text_of pm = Inr tt"
    by (cases "track_text_of pm") (auto simp: storm_track_def)
  with assms obtain locations where locs: "py_split tt = Inr locations"
    by (cases "py_split tt") (auto simp: storm_track_def)
  then obtain coords where coords': "tt = Some coords" and locations: "locations = split_from [] coords"
    by (cases tt) (auto simp: py_split_def)
  from tt coords' have coords: "track_text_of pm = Inr (Some coords)" by simp
  obtain rows err where run: "for_in locations (location_body fromstring) [] = (rows, err)"
    by (cases "for_in locations (location_body fromstring) []") auto
  note unfold = storm_track_unfold [OF tt locs run]
  from assms unfold have err: "err = None" by (cases err) auto
  from assms unfold err obtain a where arr: "np_array rows = Inr a"
    by (cases "np_array rows") auto
  from assms unfold err arr have cut: "first_two_columns a = Inr track" by simp
  from cut obtain m where m: "a = Array2 m"
    by (cases a) (auto simp: first_two_columns_def)
  note two = np_array_two_dimensional [OF arr [unfolded m]]
  from run err locations have "for_in (split_from [] coords) (location_body fromstring) [] = (rows, None)"
    by simp
  from location_loop_rows [OF this]
  have parsed: "map fromstring (split_from [] coords) = map Inr rows" by simp
  from cut m have "track = \<lparr>shape0 = shape0 m, shape1 = min (shape1 m) 2,
      flat = concat (map (\<lambda>r. map (\<lambda>j. flat m ! (r * shape1 m + j)) [0..<min (shape1 m) 2])
                         [0..<shape0 m])\<rparr>"
    by (simp add: first_two_columns_def)
  then have "track = \<lparr>shape0 = length rows, shape1 = min (length (hd rows)) 2,
      flat = concat (map (\<lambda>r. map (\<lambda>j. concat rows ! (r * length (hd rows) + j)) [0..<min (length (hd rows)) 2])
                         [0..<length rows])\<rparr>"
    by (simp add: two(3))
  then have "track = \<lparr>shape0 = length rows, shape1 = min (length (hd rows)) 2,
                       flat = concat (map (take 2) rows)\<rparr>"
    by (simp only: two_columns_of_rows [OF two(2)])
  with coords parsed two(1,2) show ?thesis by blast
qed

lemma collected_track_source:
  assumes "track \<in> set (fst (read_tracks fromstring folders))"
  shows "\<exists>d pms pm. d \<in> set folders \<and> placemarks_of d = Inr pms \<and> pm \<in> set pms
           \<and> storm_track fromstring pm = Inr track"
proof -
  from assms obtain d where d: "d \<in> set folders" "track \<in> set (decade_tracks fromstring d)"
    by (auto simp: read_tracks_decades)
  then obtain pms where pms: "placemarks_of d = Inr pms"
    and "track \<in> set (map projr (takeWhile (\<lambda>r. \<not> isl r) (map (storm_track fromstring) pms)))"
    by (cases "placemarks_of d") (auto simp: decade_tracks_def)
  then obtain r where "r \<in> set (takeWhile (\<lambda>r. \<not> isl r) (map (storm_track fromstring) pms))"
    and "track = projr r" by auto
  then have r: "r \<in> set (map (storm_track fromstring) pms)" "\<not> isl r" "track = projr r"
    by (auto dest: set_takeWhileD)
  from r(1) obtain pm where pm: "pm \<in> set pms" "r = storm_track fromstring pm" by auto
  with r(2,3) have "storm_track fromstring pm = Inr track"
    by (cases "storm_track fromstring pm") auto
  with pm(1) have "\<exists>pm. pm \<in> set pms \<and> storm_track fromstring pm = Inr track" by blast
  then obtain pm where "pm \<in> set pms" "storm_track fromstring pm = Inr track" by blast
  with d(1) pms show ?thesis by blast
qed

text \<open>
  Claim C9, as amended. Every element of \<open>tracks\<close> is a two-dimensional array with at
  least one row and at most two columns: it comes from the coordinates text of one
  placemark, each row is one whitespace-separated coordinate string parsed as
  comma-separated numbers and cut to its first two components, and all coordinate
  strings of the placemark have the same number of components. The plot's
  \<open>track[:, 0]\<close> and \<open>track[:, 1]\<close> are both in bounds exactly when that number is at
  least two (longitude, latitude).
\<close>

theorem tracks_have_at_most_two_columns:
  assumes "track \<in> set (fst (read_tracks fromstring folders))"
  shows "\<exists>d pms pm coords rows.
           d \<in> set folders \<and> placemarks_of d = Inr pms \<and> pm \<in> set pms
         \<and> track_text_of pm = Inr (Some coords)
         \<and> map fromstring (split_from [] coords) = map Inr rows
         \<and> rows \<noteq> [] \<and> (\<forall>r\<in>set rows. length r = length (hd rows))
         \<and> shape0 track = length rows \<and> shape1 track = min (length (hd rows)) 2
         \<and> flat track = concat (map (take 2) rows)
         \<and> shape1 track \<le> 2
         \<and> ((\<not> isl (getcolumn track 0) \<and> \<not> isl (getcolumn track 1)) \<longleftrightarrow> 2 \<le> length (hd rows))"
proof -
  from collected_track_source [OF assms] obtain d pms pm
    where src: "d \<in> set folders" "placemarks_of d = Inr pms" "pm \<in> set pms"
      and st: "storm_track fromstring pm = Inr track" by blast
  from storm_track_rows [OF st] obtain coords rows
    where r: "track_text_of pm = Inr (Some coords)"
      "map fromstring (split_from [] coords) = map Inr rows"
      "rows \<noteq> []" "\<forall>r\<in>set rows. length r = length (hd rows)"
      "track = \<lparr>shape0 = length rows, shape1 = min (length (hd rows)) 2,
                 flat = concat (map (take 2) rows)\<rparr>" by blast
  from r(5) have sh: "shape0 track = length rows" "shape1 track = min (length (hd rows)) 2"
    "flat track = concat (map (take 2) rows)" by simp_all
  from sh(2) have "shape1 track \<le> 2"
    and "(\<not> isl (getcolumn track 0) \<and> \<not> isl (getcolumn track 1)) \<longleftrightarrow> 2 \<le> length (hd rows)"
    by (auto simp: getcolumn_def)
  with src r(1-4) sh show ?thesis by blast
qed

theorem tracks_have_at_most_two_columns_witness:
  "\<lparr>shape0 = 2, shape1 = 2, flat = [1, 2, 3, 4]\<rparr>
     \<in> set (fst (read_tracks fromstring_unsigned [decade_folder [track_placemark ''1,2,0 3,4,0'']]))
   \<and> \<not> isl (getcolumn \<lparr>shape0 = 2, shape1 = 2, flat = [1 :: int, 2, 3, 4]\<rparr> 0)
   \<and> \<not> isl (getcolumn \<lparr>shape0 = 2, shape1 = 2, flat = [1 :: int, 2, 3, 4]\<rparr> 1)"
proof -
  let ?track = "\<lparr>shape0 = 2, shape1 = 2, flat = [1 :: int, 2, 3, 4]\<rparr>"
  let ?folders = "[decade_folder [track_placemark ''1,2,0 3,4,0'']]"
  have "fst (read_tracks fromstring_unsigned ?folders) = [?track]" by code_simp
  then have h: "?track \<in> set (fst (read_tracks fromstring_unsigned ?folders))" by simp
  from tracks_have_at_most_two_columns [OF h] obtain rows :: "int list list"
    where "shape1 ?track = min (length (hd rows)) 2"
      and "(\<not> isl (getcolumn ?track 0) \<and> \<not> isl (getcolumn ?track 1)) \<longleftrightarrow> 2 \<le> length (hd rows)"
    by blast
  then have "\<not> isl (getcolumn ?track 0) \<and> \<not> isl (getcolumn ?track 1)" by simp
  with h show ?thesis by blast
qed

text \<open>
  Claim C9 as stated fails for coordinate strings of one component: the text \<open>5 6\<close>
  gives a collected track with one column, on which \<open>track[:, 1]\<close> raises.
\<close>

theorem one_column_track:
  "read_tracks fromstring_unsigned [decade_folder [track_placemark ''5 6'']]
     = ([\<lparr>shape0 = 2, shape1 = 1, flat = [5, 6]\<rparr>], None)
   \<and> getcolumn \<lparr>shape0 = 2, shape1 = 1, flat = [5 :: int, 6]\<rparr> 1 = Inl IndexError"
  by code_simp

end
